theory Spec2Isabelle
  imports Main
begin

section \<open>JavaScript strings\<close>

text \<open>
  A JavaScript string is a sequence of UTF-16 code units; a code unit is modelled by its
  number. \<open>str\<close> turns an ASCII literal into such a sequence.
\<close>

type_synonym jsstring = "nat list"

definition str :: "string \<Rightarrow> jsstring" where
  "str s = map of_char s"

text \<open>
  The code units \<open>String.prototype.trim\<close> strips: WhiteSpace (TAB, VT, FF, SP, NBSP,
  ZWNBSP and the Unicode category Zs) and LineTerminator (LF, CR, LS, PS).
\<close>

definition isWhiteSpace :: "nat \<Rightarrow> bool" where
  "isWhiteSpace c =
     (c = 9 \<or> c = 10 \<or> c = 11 \<or> c = 12 \<or> c = 13 \<or> c = 32 \<or> c = 160 \<or> c = 5760 \<or>
      (8192 \<le> c \<and> c \<le> 8202) \<or> c = 8232 \<or> c = 8233 \<or> c = 8239 \<or> c = 8287 \<or>
      c = 12288 \<or> c = 65279)"

definition trimStart :: "jsstring \<Rightarrow> jsstring" where
  "trimStart s = dropWhile isWhiteSpace s"

definition trimEnd :: "jsstring \<Rightarrow> jsstring" where
  "trimEnd s = rev (dropWhile isWhiteSpace (rev s))"

definition trim :: "jsstring \<Rightarrow> jsstring" where
  "trim s = trimEnd (trimStart s)"

text \<open>The exceptions the handlers can throw.\<close>

datatype error = TypeError | RangeError

section \<open>Numbers\<close>

text \<open>
  A Number as the handlers meet it. \<open>Num n\<close> is the Number equal to the integer \<open>n\<close>;
  zero with either sign is \<open>Num 0\<close>. A double holds every integer of magnitude up to
  \<open>2^53\<close> exactly, and up to there \<open>toNumber\<close> is exact. For a mathematical value beyond
  \<open>2^53\<close> the Number that \<open>parseInt\<close> returns is rounded, may depend on the engine (the
  digits after the twentieth may be read as zeros) and may be Infinity: \<open>Beyond neg\<close>
  stands for any of these, of magnitude at least \<open>2^53\<close> and negative when \<open>neg\<close> holds,
  and the model does not determine it further.
\<close>

datatype jsnumber = NaN | Num int | Beyond bool

definition toNumber :: "int \<Rightarrow> jsnumber" where
  "toNumber n = (if \<bar>n\<bar> \<le> 9007199254740992 then Num n else Beyond (n < 0))"

section \<open>Dates\<close>

text \<open>
  A \<open>Date\<close> object holds a time value: milliseconds since the epoch, or NaN
  (an invalid date). The day arithmetic follows ECMAScript's abstract operations
  \<open>Day\<close>, \<open>DaysInYear\<close>, \<open>DayFromYear\<close>, \<open>YearFromTime\<close>, \<open>MonthFromTime\<close>,
  \<open>DateFromTime\<close> and \<open>MakeDay\<close>.
\<close>

datatype jsdate = InvalidDate | TimeValue int

definition msPerDay :: int where
  "msPerDay = 86400000"

definition Day :: "int \<Rightarrow> int" where
  "Day t = t div msPerDay"

definition TimeWithinDay :: "int \<Rightarrow> int" where
  "TimeWithinDay t = t mod msPerDay"

definition DaysInYear :: "int \<Rightarrow> int" where
  "DaysInYear y =
     (if y mod 4 \<noteq> 0 then 365
      else if y mod 100 \<noteq> 0 then 366
      else if y mod 400 \<noteq> 0 then 365
      else 366)"

definition InLeapYear :: "int \<Rightarrow> int" where
  "InLeapYear y = (if DaysInYear y = 366 then 1 else 0)"

definition DayFromYear :: "int \<Rightarrow> int" where
  "DayFromYear y =
     365 * (y - 1970) + (y - 1969) div 4 - (y - 1901) div 100 + (y - 1601) div 400"

text \<open>
  The year of day number \<open>n\<close>: the largest \<open>y\<close> with \<open>DayFromYear y \<le> n\<close>, found from
  the mean year length (146097 days in 400 years) and one step to either side.
\<close>

definition YearFromDay :: "int \<Rightarrow> int" where
  "YearFromDay n =
     (let y = 1970 + (n * 400) div 146097 in
      if n < DayFromYear y then y - 1
      else if DayFromYear (y + 1) \<le> n then y + 1
      else y)"

text \<open>The day within the year on which month \<open>m\<close> (0 to 11) starts; \<open>l\<close> is \<open>InLeapYear\<close>.\<close>

definition monthStart :: "int \<Rightarrow> int \<Rightarrow> int" where
  "monthStart m l =
     (if m = 0 then 0 else if m = 1 then 31 else if m = 2 then 59 + l
      else if m = 3 then 90 + l else if m = 4 then 120 + l else if m = 5 then 151 + l
      else if m = 6 then 181 + l else if m = 7 then 212 + l else if m = 8 then 243 + l
      else if m = 9 then 273 + l else if m = 10 then 304 + l else 334 + l)"

definition MonthFromDay :: "int \<Rightarrow> int" where
  "MonthFromDay n =
     (let y = YearFromDay n; d = n - DayFromYear y; l = InLeapYear y in
      if d < 31 then 0 else if d < 59 + l then 1 else if d < 90 + l then 2
      else if d < 120 + l then 3 else if d < 151 + l then 4 else if d < 181 + l then 5
      else if d < 212 + l then 6 else if d < 243 + l then 7 else if d < 273 + l then 8
      else if d < 304 + l then 9 else if d < 334 + l then 10 else 11)"

definition DateFromDay :: "int \<Rightarrow> int" where
  "DateFromDay n =
     (let y = YearFromDay n in
      n - DayFromYear y - monthStart (MonthFromDay n) (InLeapYear y) + 1)"

definition MakeDay :: "int \<Rightarrow> int \<Rightarrow> int \<Rightarrow> int" where
  "MakeDay year month date = DayFromYear year + monthStart month (InLeapYear year) + date - 1"

definition DaysInMonth :: "int \<Rightarrow> int \<Rightarrow> int" where
  "DaysInMonth year month =
     (if month = 11 then 31
      else monthStart (month + 1) (InLeapYear year) - monthStart month (InLeapYear year))"

subsection \<open>Decimal text\<close>

definition isDigit :: "nat \<Rightarrow> bool" where
  "isDigit c = (48 \<le> c \<and> c \<le> 57)"

fun decimal :: "nat \<Rightarrow> jsstring" where
  "decimal n = (if n < 10 then [48 + n] else decimal (n div 10) @ [48 + n mod 10])"

declare decimal.simps [simp del]

definition padStart :: "nat \<Rightarrow> jsstring \<Rightarrow> jsstring" where
  "padStart w s = replicate (w - length s) 48 @ s"

definition digitsValue :: "jsstring \<Rightarrow> nat" where
  "digitsValue ds = foldl (\<lambda>acc c. acc * 10 + (c - 48)) 0 ds"

subsection \<open>Parsing and printing\<close>

text \<open>
  \<open>new Date(dateString)\<close>. ECMAScript fixes the result for the date-only form
  \<open>YYYY-MM-DD\<close> of a day the calendar has, which is what a date input yields for a
  year of four digits: midnight UTC of that day. The empty string gives an invalid date.
  Every other string is left to the engine's own parser (one engine reads
  \<open>12345-01-01\<close> and rolls \<open>2024-02-30\<close> over to March, another answers with an invalid
  date): \<open>legacy\<close> is what the engine at hand returns for the string.
\<close>

definition isDateOnly :: "jsstring \<Rightarrow> bool" where
  "isDateOnly s =
     (length s = 10 \<and> s ! 4 = 45 \<and> s ! 7 = 45 \<and>
      list_all isDigit (take 4 s) \<and> list_all isDigit (take 2 (drop 5 s)) \<and>
      list_all isDigit (drop 8 s) \<and>
      (let year = int (digitsValue (take 4 s));
           month = int (digitsValue (take 2 (drop 5 s)));
           date = int (digitsValue (drop 8 s))
       in 1 \<le> month \<and> month \<le> 12 \<and> 1 \<le> date \<and> date \<le> DaysInMonth year (month - 1)))"

definition newDateFromString :: "jsdate \<Rightarrow> jsstring \<Rightarrow> jsdate" where
  "newDateFromString legacy s =
     (if isDateOnly s then
        let year = int (digitsValue (take 4 s));
            month = int (digitsValue (take 2 (drop 5 s)));
            date = int (digitsValue (drop 8 s))
        in TimeValue (MakeDay year (month - 1) date * msPerDay)
      else if s = [] then InvalidDate
      else legacy)"

text \<open>\<open>new Date(value)\<close> for a number: \<open>TimeClip\<close>.\<close>

definition newDateFromTime :: "int \<Rightarrow> jsdate" where
  "newDateFromTime t = (if \<bar>t\<bar> > 8640000000000000 then InvalidDate else TimeValue t)"

text \<open>
  \<open>toISOString\<close>: \<open>YYYY-MM-DDTHH:mm:ss.sssZ\<close> in UTC, the year with four digits from
  0 to 9999 and with a sign and six digits otherwise; a RangeError on an invalid date.
\<close>

definition isoYear :: "int \<Rightarrow> jsstring" where
  "isoYear y =
     (if 0 \<le> y \<and> y \<le> 9999 then padStart 4 (decimal (nat y))
      else (if y < 0 then 45 else 43) # padStart 6 (decimal (nat \<bar>y\<bar>)))"

definition toISOString :: "jsdate \<Rightarrow> error + jsstring" where
  "toISOString d =
     (case d of
        InvalidDate \<Rightarrow> Inl RangeError
      | TimeValue t \<Rightarrow>
          let n = Day t; ms = TimeWithinDay t in
          Inr (isoYear (YearFromDay n) @ [45] @
               padStart 2 (decimal (nat (MonthFromDay n + 1))) @ [45] @
               padStart 2 (decimal (nat (DateFromDay n))) @ [84] @
               padStart 2 (decimal (nat (ms div 3600000))) @ [58] @
               padStart 2 (decimal (nat (ms div 60000 mod 60))) @ [58] @
               padStart 2 (decimal (nat (ms div 1000 mod 60))) @ [46] @
               padStart 3 (decimal (nat (ms mod 1000))) @ [90]))"

text \<open>
  \<open>parseInt(string)\<close> with no radix: leading white space is skipped, a sign is read, a
  \<open>0x\<close> or \<open>0X\<close> prefix selects radix 16, and the longest run of digits gives the
  mathematical value, which \<open>toNumber\<close> turns into the Number returned; with no digit
  the result is NaN.
\<close>

definition digitOf :: "nat \<Rightarrow> nat" where
  "digitOf c =
     (if 48 \<le> c \<and> c \<le> 57 then c - 48
      else if 97 \<le> c \<and> c \<le> 122 then c - 87
      else if 65 \<le> c \<and> c \<le> 90 then c - 55
      else 36)"

definition parseInt :: "jsstring \<Rightarrow> jsnumber" where
  "parseInt string =
     (let S = trimStart string;
          sign = (if S \<noteq> [] \<and> hd S = 45 then - 1 else 1 :: int);
          S1 = (if S \<noteq> [] \<and> (hd S = 43 \<or> hd S = 45) then tl S else S);
          hex = (2 \<le> length S1 \<and> S1 ! 0 = 48 \<and> (S1 ! 1 = 120 \<or> S1 ! 1 = 88));
          R = (if hex then 16 else 10 :: nat);
          S2 = (if hex then drop 2 S1 else S1);
          Z = takeWhile (\<lambda>c. digitOf c < R) S2
      in if Z = [] then NaN
         else toNumber (sign * int (foldl (\<lambda>acc c. acc * R + digitOf c) 0 Z)))"

section \<open>The draft of AddTaskDrawer\<close>

text \<open>The interfaces \<open>Subtask\<close>, \<open>NewTaskData\<close> and \<open>TaskList\<close> of AddTaskDrawer.tsx.\<close>

record Subtask =
  sub_id :: int
  sub_title :: jsstring
  sub_completed :: bool

record NewTaskData =
  title :: jsstring
  listId :: int
  dueDate :: jsdate
  startTime :: jsstring
  duration :: jsnumber
  isFixed :: bool
  completed :: bool
  important :: bool
  notes' :: jsstring
  subtasks :: "Subtask list"

record TaskList =
  list_id :: int
  list_name :: jsstring
  list_icon :: jsstring
  list_color :: jsstring
  list_description :: jsstring

text \<open>
  The initializer of \<open>useState\<close>. \<open>taskLists[0]?.id || 1\<close> is 1 when there is no
  first list and when its id is falsy (0); \<open>initialDueDate || new Date()\<close> reads the
  clock (\<open>now\<close>) when no date is supplied.
\<close>

definition initialState :: "TaskList list \<Rightarrow> jsdate option \<Rightarrow> int \<Rightarrow> NewTaskData" where
  "initialState taskLists initialDueDate now =
     \<lparr> title = [],
       listId = (case taskLists of
                   [] \<Rightarrow> 1
                 | l # _ \<Rightarrow> if list_id l = 0 then 1 else list_id l),
       dueDate = (case initialDueDate of None \<Rightarrow> TimeValue now | Some d \<Rightarrow> d),
       startTime = [],
       duration = Num 60,
       isFixed = False,
       completed = False,
       important = False,
       notes' = [],
       subtasks = [] \<rparr>"

subsection \<open>Subtask rows\<close>

text \<open>
  \<open>handleSubtaskChange\<close> copies the array and assigns to \<open>updatedSubtasks[index].title\<close>.
  Outside the array the element is \<open>undefined\<close> and the assignment throws a TypeError
  before \<open>setNewTask\<close> is reached. Each handler runs against the state of the render that
  installed it, one event per render, so the closure's \<open>newTask\<close> and the updater's
  \<open>prev\<close> are the same state.
\<close>

definition handleSubtaskChange :: "int \<Rightarrow> jsstring \<Rightarrow> NewTaskData \<Rightarrow> error + NewTaskData" where
  "handleSubtaskChange index v s =
     (let updatedSubtasks = subtasks s in
      if 0 \<le> index \<and> index < int (length updatedSubtasks)
      then Inr (s\<lparr>subtasks :=
                  updatedSubtasks[nat index := (updatedSubtasks ! nat index)\<lparr>sub_title := v\<rparr>]\<rparr>)
      else Inl TypeError)"

text \<open>\<open>addSubtask\<close>; the new row's id is \<open>Date.now()\<close>.\<close>

definition addSubtask :: "int \<Rightarrow> NewTaskData \<Rightarrow> NewTaskData" where
  "addSubtask now s =
     s\<lparr>subtasks := subtasks s @ [\<lparr>sub_id = now, sub_title = [], sub_completed = False\<rparr>]\<rparr>"

text \<open>\<open>removeSubtask\<close>: \<open>filter((_, i) => i !== index)\<close>.\<close>

definition removeSubtask :: "int \<Rightarrow> NewTaskData \<Rightarrow> NewTaskData" where
  "removeSubtask index s =
     s\<lparr>subtasks :=
         map fst (filter (\<lambda>(_, i). int i \<noteq> index)
                         (zip (subtasks s) [0 ..< length (subtasks s)]))\<rparr>"

text \<open>The \<open>disabled\<close> attribute of the "Add Subtask" button.\<close>

definition addSubtaskDisabled :: "NewTaskData \<Rightarrow> bool" where
  "addSubtaskDisabled s =
     (length (subtasks s) > 0 \<and>
      trim (sub_title (subtasks s ! (length (subtasks s) - 1))) = [])"

subsection \<open>Submission\<close>

text \<open>
  The payload handed to \<open>onAddTask\<close> is an object: its own properties in creation
  order, each a key and a value.
\<close>

datatype jsvalue =
    VString jsstring
  | VNumber jsnumber
  | VBoolean bool
  | VDate jsdate
  | VSubtasks "Subtask list"

type_synonym jsobject = "(string \<times> jsvalue) list"

text \<open>The state object \<open>newTask\<close> with the keys of the \<open>useState\<close> literal.\<close>

definition objectOf :: "NewTaskData \<Rightarrow> jsobject" where
  "objectOf s =
     [(''title'', VString (title s)),
      (''listId'', VNumber (Num (listId s))),
      (''dueDate'', VDate (dueDate s)),
      (''startTime'', VString (startTime s)),
      (''duration'', VNumber (duration s)),
      (''isFixed'', VBoolean (isFixed s)),
      (''completed'', VBoolean (completed s)),
      (''important'', VBoolean (important s)),
      (''notes'', VString (notes' s)),
      (''subtasks'', VSubtasks (subtasks s))]"

text \<open>Rest destructuring \<open>const { k, ...rest } = obj\<close>.\<close>

definition restWithout :: "string \<Rightarrow> jsobject \<Rightarrow> jsobject" where
  "restWithout k obj = filter (\<lambda>(k', _). k' \<noteq> k) obj"

text \<open>
  A property written after a spread in an object literal: an existing key keeps its
  place and takes the new value, a new key is appended.
\<close>

fun setProperty :: "string \<Rightarrow> jsvalue \<Rightarrow> jsobject \<Rightarrow> jsobject" where
  "setProperty k v [] = [(k, v)]"
| "setProperty k v ((k', v') # obj) =
     (if k' = k then (k, v) # obj else (k', v') # setProperty k v obj)"

text \<open>What a handler does to its surroundings, in the order it does it.\<close>

datatype effect =
    PreventDefault
  | OnAddTask jsobject
  | OnClose
  | Uncaught error

text \<open>\<open>finalSubtasks\<close> of \<open>handleSubmit\<close>: \<open>map\<close> with the index, then \<open>filter\<close>.\<close>

definition finalSubtasks :: "NewTaskData \<Rightarrow> Subtask list" where
  "finalSubtasks s =
     filter (\<lambda>sub. trim (sub_title sub) \<noteq> [])
       (map (\<lambda>(sub, index). sub\<lparr>sub_id := int index\<rparr>)
            (zip (subtasks s) [0 ..< length (subtasks s)]))"

definition handleSubmit :: "NewTaskData \<Rightarrow> effect list" where
  "handleSubmit s =
     (if trim (title s) = [] then [PreventDefault]
      else
        let taskData = restWithout ''completed'' (objectOf s) in
        [PreventDefault,
         OnAddTask
           (setProperty ''subtasks'' (VSubtasks (finalSubtasks s))
             (setProperty ''notes'' (VString (trim (notes' s)))
               (setProperty ''title'' (VString (trim (title s))) taskData))),
         OnClose])"

subsection \<open>Scalar fields\<close>

text \<open>The \<open>onChange\<close> handlers of the title, notes and duration inputs.\<close>

definition handleTitleChange :: "jsstring \<Rightarrow> NewTaskData \<Rightarrow> NewTaskData" where
  "handleTitleChange v s = s\<lparr>title := v\<rparr>"

definition handleNotesChange :: "jsstring \<Rightarrow> NewTaskData \<Rightarrow> NewTaskData" where
  "handleNotesChange v s = s\<lparr>notes' := v\<rparr>"

text \<open>\<open>parseInt(e.target.value) || 60\<close>: NaN and 0 are falsy, every other Number is kept.\<close>

definition handleDurationChange :: "jsstring \<Rightarrow> NewTaskData \<Rightarrow> NewTaskData" where
  "handleDurationChange v s =
     s\<lparr>duration := (case parseInt v of
                      NaN \<Rightarrow> Num 60
                    | Num n \<Rightarrow> if n = 0 then Num 60 else Num n
                    | Beyond neg \<Rightarrow> Beyond neg)\<rparr>"

subsection \<open>The due date\<close>

definition formatDateForInput :: "jsdate \<Rightarrow> error + jsstring" where
  "formatDateForInput date =
     (case toISOString date of
        Inl e \<Rightarrow> Inl e
      | Inr isoString \<Rightarrow> Inr (takeWhile (\<lambda>c. c \<noteq> 84) isoString))"

text \<open>
  \<open>handleDateChange\<close>; \<open>legacy\<close> is the engine's reading of a string that is not in
  the date-only form, and \<open>tzOffset\<close> is what \<open>date.getTimezoneOffset()\<close> returns for
  the parsed date, in minutes, positive west of UTC. On an invalid date every step
  yields NaN.
\<close>

definition handleDateChange :: "jsstring \<Rightarrow> jsdate \<Rightarrow> int \<Rightarrow> NewTaskData \<Rightarrow> NewTaskData" where
  "handleDateChange dateString legacy tzOffset s =
     (case newDateFromString legacy dateString of
        InvalidDate \<Rightarrow> s\<lparr>dueDate := InvalidDate\<rparr>
      | TimeValue t \<Rightarrow>
          let timeZoneOffset = tzOffset * 60000;
              adjustedDate = newDateFromTime (t + timeZoneOffset)
          in s\<lparr>dueDate := adjustedDate\<rparr>)"

subsection \<open>Events\<close>

text \<open>
  The user's actions on the drawer. An event carries what its handler reads from the
  environment: the clock for a new row's id, the engine's reading of a date string
  outside the date-only form and the timezone offset for a date. A disabled
  button delivers no click. An exception leaves a handler before any state update, so
  the draft stays as it was. \<open>Submit\<close> is a submit event that reaches \<open>handleSubmit\<close>;
  the browser's own form validation and the rendering of the drawer are not modelled.
\<close>

datatype event =
    TitleChange jsstring
  | NotesChange jsstring
  | DurationChange jsstring
  | DateChange jsstring jsdate int
  | SubtaskChange int jsstring
  | AddSubtaskClick int
  | RemoveSubtaskClick int
  | Submit

fun dispatch :: "event \<Rightarrow> NewTaskData \<Rightarrow> NewTaskData \<times> effect list" where
  "dispatch (TitleChange v) s = (handleTitleChange v s, [])"
| "dispatch (NotesChange v) s = (handleNotesChange v s, [])"
| "dispatch (DurationChange v) s = (handleDurationChange v s, [])"
| "dispatch (DateChange v legacy tzOffset) s = (handleDateChange v legacy tzOffset s, [])"
| "dispatch (SubtaskChange index v) s =
     (case handleSubtaskChange index v s of
        Inl e \<Rightarrow> (s, [Uncaught e])
      | Inr s' \<Rightarrow> (s', []))"
| "dispatch (AddSubtaskClick now) s =
     (if addSubtaskDisabled s then (s, []) else (addSubtask now s, []))"
| "dispatch (RemoveSubtaskClick index) s = (removeSubtask index s, [])"
| "dispatch Submit s = (s, handleSubmit s)"

fun run :: "event list \<Rightarrow> NewTaskData \<Rightarrow> NewTaskData \<times> effect list" where
  "run [] s = (s, [])"
| "run (ev # evs) s =
     (case dispatch ev s of
        (s', effs) \<Rightarrow> (case run evs s' of (s'', effs') \<Rightarrow> (s'', effs @ effs')))"

text \<open>The events that edit the subtask rows.\<close>

fun subtaskEvent :: "event \<Rightarrow> bool" where
  "subtaskEvent (SubtaskChange _ _) = True"
| "subtaskEvent (AddSubtaskClick _) = True"
| "subtaskEvent (RemoveSubtaskClick _) = True"
| "subtaskEvent _ = False"

text \<open>The subtask lists of the payloads among a handler's effects.\<close>

fun emittedSubtasks :: "effect list \<Rightarrow> Subtask list list" where
  "emittedSubtasks [] = []"
| "emittedSubtasks (OnAddTask p # effs) =
     (case map_of p ''subtasks'' of
        Some (VSubtasks xs) \<Rightarrow> xs # emittedSubtasks effs
      | _ \<Rightarrow> emittedSubtasks effs)"
| "emittedSubtasks (_ # effs) = emittedSubtasks effs"

section \<open>Notions used to state the properties\<close>

text \<open>A row whose title is empty once trimmed.\<close>

definition blankRow :: "Subtask \<Rightarrow> bool" where
  "blankRow sub = (trim (sub_title sub) = [])"

text \<open>An edit that gives an empty trimmed title to a row other than the last.\<close>

definition clearsInnerRow :: "NewTaskData \<Rightarrow> event \<Rightarrow> bool" where
  "clearsInnerRow s ev =
     (case ev of
        SubtaskChange index v \<Rightarrow>
          trim v = [] \<and> 0 \<le> index \<and> index + 1 < int (length (subtasks s))
      | _ \<Rightarrow> False)"

text \<open>How many events of a sequence are such edits, when it is run from \<open>s\<close>.\<close>

fun innerClearings :: "event list \<Rightarrow> NewTaskData \<Rightarrow> nat" where
  "innerClearings [] s = 0"
| "innerClearings (ev # evs) s =
     (if clearsInnerRow s ev then 1 else 0) + innerClearings evs (fst (dispatch ev s))"

text \<open>The blank rows before the last row.\<close>

definition blankInner :: "Subtask list \<Rightarrow> nat" where
  "blankInner xs = length (filter blankRow (butlast xs))"

definition allOpen :: "Subtask list \<Rightarrow> bool" where
  "allOpen xs = (\<forall>sub\<in>set xs. \<not> sub_completed sub)"

subsection \<open>Example data\<close>

text \<open>One list named Home, a list whose id is 0, and the drawer opened on 2024-01-01.\<close>

definition homeList :: TaskList where
  "homeList = \<lparr> list_id = 1, list_name = str ''Home'', list_icon = str ''H'',
                 list_color = str ''#3b82f6'', list_description = str ''Chores'' \<rparr>"

definition inboxList :: TaskList where
  "inboxList = \<lparr> list_id = 0, list_name = str ''Inbox'', list_icon = str ''I'',
                  list_color = str ''#6b7280'', list_description = str ''Unsorted'' \<rparr>"

definition workList :: TaskList where
  "workList = \<lparr> list_id = 7, list_name = str ''Work'', list_icon = str ''W'',
                 list_color = str ''#ef4444'', list_description = str ''Office'' \<rparr>"

definition openedDraft :: NewTaskData where
  "openedDraft = initialState [homeList] (Some (TimeValue 1704067200000)) 1704100000000"

text \<open>The title typed with surrounding blanks, one subtask row added and filled in.\<close>

definition milkEvents :: "event list" where
  "milkEvents =
     [TitleChange (str ''  Buy milk  ''),
      AddSubtaskClick 1704100001000,
      SubtaskChange 0 (str ''2% milk'')]"

definition milkDraft :: NewTaskData where
  "milkDraft = fst (run milkEvents openedDraft)"

text \<open>Two rows filled in, then the first one cleared again.\<close>

definition gapEvents :: "event list" where
  "gapEvents =
     [TitleChange (str ''Shop''),
      AddSubtaskClick 1704100001000,
      SubtaskChange 0 (str ''a''),
      AddSubtaskClick 1704100002000,
      SubtaskChange 1 (str ''b''),
      SubtaskChange 0 []]"

text \<open>Two rows filled in and a third one added.\<close>

definition trailingEvents :: "event list" where
  "trailingEvents =
     [TitleChange (str ''Shop''),
      AddSubtaskClick 1704100001000,
      SubtaskChange 0 (str ''a''),
      AddSubtaskClick 1704100002000,
      SubtaskChange 1 (str ''b''),
      AddSubtaskClick 1704100003000]"

definition trailingDraft :: NewTaskData where
  "trailingDraft = fst (run trailingEvents openedDraft)"

definition gapDraft :: NewTaskData where
  "gapDraft = fst (run gapEvents openedDraft)"

text \<open>A row filled in, a second row added, then the first one cleared.\<close>

definition twoBlankEvents :: "event list" where
  "twoBlankEvents =
     [AddSubtaskClick 1704100001000,
      SubtaskChange 0 (str ''a''),
      AddSubtaskClick 1704100002000,
      SubtaskChange 0 []]"

text \<open>
  A row typed and erased, spaces typed into the last row, rows added and removed; no
  edit blanks a row other than the last.
\<close>

definition eraseEvents :: "event list" where
  "eraseEvents =
     [AddSubtaskClick 1704100001000,
      SubtaskChange 0 (str ''a''),
      SubtaskChange 0 (str ''  ''),
      AddSubtaskClick 1704100002000,
      SubtaskChange 0 [],
      AddSubtaskClick 1704100003000,
      SubtaskChange 0 (str ''b''),
      AddSubtaskClick 1704100004000,
      SubtaskChange 1 (str ''c''),
      RemoveSubtaskClick 0,
      AddSubtaskClick 1704100005000,
      SubtaskChange 1 (str '' '')]"


section \<open>Auxiliary facts\<close>

lemma dropWhile_rev_dropWhile_Nil:
  "dropWhile P (rev (dropWhile P s)) = [] \<longleftrightarrow> (\<forall>x\<in>set s. P x)"
proof
  assume a: "dropWhile P (rev (dropWhile P s)) = []"
  show "\<forall>x\<in>set s. P x"
  proof (cases "dropWhile P s")
    case Nil
    then show ?thesis by simp
  next
    case (Cons y ys)
    then have "\<not> P y" by (metis hd_dropWhile list.sel(1) list.distinct(1))
    moreover from a Cons have "P y" by simp
    ultimately show ?thesis by simp
  qed
next
  assume "\<forall>x\<in>set s. P x"
  then show "dropWhile P (rev (dropWhile P s)) = []" by (auto dest: set_dropWhileD)
qed

lemma trim_Nil_iff: "trim s = [] \<longleftrightarrow> list_all isWhiteSpace s"
  unfolding trim_def trimEnd_def trimStart_def
  by (simp only: rev_is_Nil_conv dropWhile_rev_dropWhile_Nil list_all_iff)

lemma removeSubtask_take_drop:
  "map fst (filter (\<lambda>(_, i). int i \<noteq> index) (zip xs [0 ..< length xs])) =
     (if 0 \<le> index \<and> index < int (length xs)
      then take (nat index) xs @ drop (Suc (nat index)) xs else xs)"
proof (induction xs rule: rev_induct)
  case Nil
  show ?case by simp
next
  case (snoc x xs)
  show ?case
  proof (cases "0 \<le> index \<and> index < int (length xs)")
    case True
    then have "nat index < length xs" by linarith
    with True snoc show ?thesis by simp
  next
    case False
    with snoc show ?thesis by (auto simp: nat_less_iff)
  qed
qed

lemma finalSubtasks_positions:
  "filter (\<lambda>sub. trim (sub_title sub) \<noteq> [])
       (map (\<lambda>(sub, index). sub\<lparr>sub_id := int index\<rparr>) (zip xs [0 ..< length xs])) =
   map (\<lambda>i. (xs ! i)\<lparr>sub_id := int i\<rparr>)
       (filter (\<lambda>i. trim (sub_title (xs ! i)) \<noteq> []) [0 ..< length xs])"
proof (induction xs rule: rev_induct)
  case Nil
  show ?case by simp
next
  case (snoc x xs)
  have f: "filter (\<lambda>i. trim (sub_title ((xs @ [x]) ! i)) \<noteq> []) [0 ..< length xs] =
           filter (\<lambda>i. trim (sub_title (xs ! i)) \<noteq> []) [0 ..< length xs]"
    by (rule filter_cong) (auto simp: nth_append)
  have m: "map (\<lambda>i. ((xs @ [x]) ! i)\<lparr>sub_id := int i\<rparr>)
               (filter (\<lambda>i. trim (sub_title (xs ! i)) \<noteq> []) [0 ..< length xs]) =
           map (\<lambda>i. (xs ! i)\<lparr>sub_id := int i\<rparr>)
               (filter (\<lambda>i. trim (sub_title (xs ! i)) \<noteq> []) [0 ..< length xs])"
    by (rule map_cong) (auto simp: nth_append)
  show ?case using snoc by (simp add: f m)
qed

lemma filter_upt_prefix_ex:
  "(\<forall>i j. i < j \<and> j < n \<and> \<not> P i \<longrightarrow> \<not> P j) \<Longrightarrow> \<exists>k. filter P [0 ..< n] = [0 ..< k]"
proof (induction n)
  case 0
  have "filter P [0 ..< 0] = [0 ..< 0]" by simp
  then show ?case by blast
next
  case (Suc n)
  from Suc.prems have "\<forall>i j. i < j \<and> j < n \<and> \<not> P i \<longrightarrow> \<not> P j"
    using less_SucI by blast
  with Suc.IH obtain k where k: "filter P [0 ..< n] = [0 ..< k]" by blast
  show ?case
  proof (cases "P n")
    case True
    with Suc.prems have "\<forall>i < n. P i" by (metis lessI)
    then have "filter P [0 ..< n] = [0 ..< n]" by simp
    with True have "filter P [0 ..< Suc n] = [0 ..< Suc n]" by simp
    then show ?thesis by blast
  next
    case False
    with k have "filter P [0 ..< Suc n] = [0 ..< k]" by simp
    then show ?thesis by blast
  qed
qed

lemma filter_upt_prefix:
  assumes "\<forall>i j. i < j \<and> j < n \<and> \<not> P i \<longrightarrow> \<not> P j"
  shows "filter P [0 ..< n] = [0 ..< length (filter P [0 ..< n])]"
proof -
  from assms obtain k where k: "filter P [0 ..< n] = [0 ..< k]"
    using filter_upt_prefix_ex by blast
  then have "length (filter P [0 ..< n]) = k" by simp
  with k show ?thesis by simp
qed

lemma finalSubtasks_eq:
  "finalSubtasks s =
     map (\<lambda>i. (subtasks s ! i)\<lparr>sub_id := int i\<rparr>)
         (filter (\<lambda>i. trim (sub_title (subtasks s ! i)) \<noteq> []) [0 ..< length (subtasks s)])"
  unfolding finalSubtasks_def by (rule finalSubtasks_positions)

lemma finalSubtasks_titles:
  "map sub_title (finalSubtasks s) = filter (\<lambda>t. trim t \<noteq> []) (map sub_title (subtasks s))"
proof -
  have "map sub_title (filter (\<lambda>sub. trim (sub_title sub) \<noteq> [])
          (map (\<lambda>(sub, index). sub\<lparr>sub_id := int index\<rparr>) (zip xs [0 ..< length xs]))) =
        filter (\<lambda>t. trim t \<noteq> []) (map sub_title xs)" for xs
    by (induction xs rule: rev_induct) simp_all
  then show ?thesis by (simp add: finalSubtasks_def)
qed

lemma finalSubtasks_ids:
  "map sub_id (finalSubtasks s) =
     map int (filter (\<lambda>i. trim (sub_title (subtasks s ! i)) \<noteq> []) [0 ..< length (subtasks s)])"
  by (simp add: finalSubtasks_eq comp_def)

lemma finalSubtasks_ids_increasing: "sorted_wrt (<) (map sub_id (finalSubtasks s))"
proof -
  have "sorted_wrt (<) (filter P [0 ..< n])" for P and n :: nat
    by (rule sorted_wrt_filter) simp
  then show ?thesis
    by (simp add: finalSubtasks_ids sorted_wrt_map)
qed

lemma emitted_handleSubmit:
  "trim (title s) \<noteq> [] \<Longrightarrow> emittedSubtasks (handleSubmit s) = [finalSubtasks s]"
  by (simp add: handleSubmit_def objectOf_def restWithout_def)

lemma emitted_handleSubmit_blank:
  "trim (title s) = [] \<Longrightarrow> emittedSubtasks (handleSubmit s) = []"
  by (simp add: handleSubmit_def)

lemma removeSubtask_subset: "set (subtasks (removeSubtask index s)) \<subseteq> set (subtasks s)"
  by (auto simp: removeSubtask_def dest: set_zip_leftD)

lemma dispatch_SubtaskChange:
  "dispatch (SubtaskChange index v) s =
     (if 0 \<le> index \<and> index < int (length (subtasks s))
      then (s\<lparr>subtasks := (subtasks s)[nat index := (subtasks s ! nat index)\<lparr>sub_title := v\<rparr>]\<rparr>, [])
      else (s, [Uncaught TypeError]))"
  by (simp add: handleSubtaskChange_def Let_def)

lemma fst_run_Cons: "fst (run (ev # evs) s) = fst (run evs (fst (dispatch ev s)))"
  by (simp split: prod.splits)

lemma dispatch_allOpen:
  assumes "allOpen (subtasks s)"
  shows "allOpen (subtasks (fst (dispatch ev s)))"
proof (cases ev)
  case (SubtaskChange index v)
  show ?thesis
  proof (cases "0 \<le> index \<and> index < int (length (subtasks s))")
    case True
    then have "nat index < length (subtasks s)" by linarith
    with assms have c: "\<not> sub_completed ((subtasks s ! nat index)\<lparr>sub_title := v\<rparr>)"
      by (simp add: allOpen_def)
    from True SubtaskChange have
      "subtasks (fst (dispatch ev s)) =
         (subtasks s)[nat index := (subtasks s ! nat index)\<lparr>sub_title := v\<rparr>]"
      by (simp add: dispatch_SubtaskChange del: dispatch.simps)
    then have "set (subtasks (fst (dispatch ev s))) \<subseteq>
               insert ((subtasks s ! nat index)\<lparr>sub_title := v\<rparr>) (set (subtasks s))"
      by (simp add: set_update_subset_insert)
    with assms c show ?thesis unfolding allOpen_def by blast
  next
    case False
    with SubtaskChange have "dispatch ev s = (s, [Uncaught TypeError])"
      by (simp only: dispatch_SubtaskChange if_False)
    with assms show ?thesis by simp
  qed
next
  case (RemoveSubtaskClick index)
  with assms removeSubtask_subset [of index s] show ?thesis by (auto simp: allOpen_def)
qed (use assms in \<open>auto simp: allOpen_def handleTitleChange_def handleNotesChange_def
      handleDurationChange_def handleDateChange_def addSubtask_def Let_def split: jsdate.splits\<close>)

lemma run_allOpen:
  "allOpen (subtasks s) \<Longrightarrow> allOpen (subtasks (fst (run evs s)))"
proof (induction evs arbitrary: s)
  case Nil
  then show ?case by simp
next
  case (Cons ev evs)
  from Cons.prems have "allOpen (subtasks (fst (dispatch ev s)))" by (rule dispatch_allOpen)
  then have "allOpen (subtasks (fst (run evs (fst (dispatch ev s)))))" by (rule Cons.IH)
  then show ?case by (simp only: fst_run_Cons)
qed

lemma finalSubtasks_allOpen: "allOpen (subtasks s) \<Longrightarrow> allOpen (finalSubtasks s)"
  by (auto simp: allOpen_def finalSubtasks_def dest: set_zip_leftD)

lemma emitted_allOpen:
  "allOpen (subtasks s) \<Longrightarrow> \<forall>F\<in>set (emittedSubtasks (handleSubmit s)). allOpen F"
  by (cases "trim (title s) = []")
     (simp_all add: emitted_handleSubmit emitted_handleSubmit_blank finalSubtasks_allOpen)

lemma removeSubtask_eq:
  "subtasks (removeSubtask index s) =
     (if 0 \<le> index \<and> index < int (length (subtasks s))
      then take (nat index) (subtasks s) @ drop (Suc (nat index)) (subtasks s)
      else subtasks s)"
  by (simp add: removeSubtask_def removeSubtask_take_drop)

lemma filter_update_le:
  assumes "i < length zs"
  shows "length (filter P (zs[i := y])) \<le> length (filter P zs) + (if P y then 1 else 0)"
proof -
  have "zs[i := y] = take i zs @ y # drop (Suc i) zs"
    using assms by (rule upd_conv_take_nth_drop)
  moreover have "zs = take i zs @ zs ! i # drop (Suc i) zs"
    using assms by (rule id_take_nth_drop)
  then have "length (filter P zs) =
             length (filter P (take i zs)) + length (filter P (zs ! i # drop (Suc i) zs))"
    by (metis filter_append length_append)
  ultimately show ?thesis by simp
qed

lemma filter_remove_le:
  "length (filter P (take i zs @ drop (Suc i) zs)) \<le> length (filter P zs)"
proof (cases "i < length zs")
  case True
  then have "zs = take i zs @ zs ! i # drop (Suc i) zs" by (rule id_take_nth_drop)
  then have "length (filter P zs) =
             length (filter P (take i zs)) + length (filter P (zs ! i # drop (Suc i) zs))"
    by (metis filter_append length_append)
  then show ?thesis by simp
next
  case False
  then show ?thesis by simp
qed

lemma filter_butlast_le: "length (filter P (butlast zs)) \<le> length (filter P zs)"
  by (cases zs rule: rev_cases) simp_all

lemma blank_count_le: "length (filter blankRow xs) \<le> blankInner xs + 1"
  by (cases xs rule: rev_cases) (simp_all add: blankInner_def)

lemma blankInner_remove:
  assumes "i < length xs"
  shows "blankInner (take i xs @ drop (Suc i) xs) \<le> blankInner xs"
proof (cases "Suc i = length xs")
  case True
  then have "i = length xs - 1" by simp
  then have "take i xs = butlast xs" by (simp only: butlast_conv_take)
  with True show ?thesis by (simp add: blankInner_def filter_butlast_le)
next
  case False
  with assms have d: "drop (Suc i) xs \<noteq> []" by simp
  then have "butlast (take i xs @ drop (Suc i) xs) = take i xs @ butlast (drop (Suc i) xs)"
    by (simp add: butlast_append)
  also have "\<dots> = take i (butlast xs) @ drop (Suc i) (butlast xs)"
    using assms False by (simp add: butlast_drop take_butlast)
  finally show ?thesis
    unfolding blankInner_def by (simp only: filter_remove_le)
qed

lemma dispatch_blankInner:
  "blankInner (subtasks (fst (dispatch ev s))) \<le>
     blankInner (subtasks s) + (if clearsInnerRow s ev then 1 else 0)"
proof (cases ev)
  case (SubtaskChange index v)
  show ?thesis
  proof (cases "0 \<le> index \<and> index < int (length (subtasks s))")
    case True
    let ?y = "(subtasks s ! nat index)\<lparr>sub_title := v\<rparr>"
    from True have i: "nat index < length (subtasks s)" by linarith
    from True SubtaskChange have
      u: "subtasks (fst (dispatch ev s)) = (subtasks s)[nat index := ?y]"
      by (simp add: dispatch_SubtaskChange del: dispatch.simps)
    show ?thesis
    proof (cases "nat index = length (subtasks s) - 1")
      case True
      then show ?thesis by (simp add: u blankInner_def butlast_list_update)
    next
      case False
      with i have j: "nat index < length (butlast (subtasks s))" by simp
      from False have b: "butlast ((subtasks s)[nat index := ?y]) =
                          (butlast (subtasks s))[nat index := ?y]"
        by (simp add: butlast_list_update)
      from False i True have inner: "0 \<le> index \<and> index + 1 < int (length (subtasks s))"
        by linarith
      have "blankRow ?y \<longleftrightarrow> trim v = []" by (simp add: blankRow_def)
      with inner SubtaskChange have
        c: "(if blankRow ?y then 1 else 0) = (if clearsInnerRow s ev then 1 else (0::nat))"
        by (simp add: clearsInnerRow_def)
      from filter_update_le [OF j, of blankRow ?y] show ?thesis
        unfolding blankInner_def u b c .
    qed
  next
    case False
    with SubtaskChange have "dispatch ev s = (s, [Uncaught TypeError])"
      by (simp only: dispatch_SubtaskChange if_False)
    then show ?thesis by simp
  qed
next
  case (AddSubtaskClick now)
  show ?thesis
  proof (cases "addSubtaskDisabled s")
    case True
    with AddSubtaskClick show ?thesis by simp
  next
    case False
    then have "subtasks s = [] \<or> \<not> blankRow (last (subtasks s))"
      by (auto simp: addSubtaskDisabled_def blankRow_def last_conv_nth)
    then have "length (filter blankRow (subtasks s)) = blankInner (subtasks s)"
      by (cases "subtasks s" rule: rev_cases) (simp_all add: blankInner_def)
    with False AddSubtaskClick show ?thesis by (simp add: blankInner_def addSubtask_def)
  qed
next
  case (RemoveSubtaskClick index)
  show ?thesis
  proof (cases "0 \<le> index \<and> index < int (length (subtasks s))")
    case True
    then have "nat index < length (subtasks s)" by linarith
    from blankInner_remove [OF this] True RemoveSubtaskClick show ?thesis
      by (simp add: removeSubtask_eq)
  next
    case False
    with RemoveSubtaskClick show ?thesis by (auto simp: removeSubtask_eq)
  qed
qed (simp_all add: handleTitleChange_def handleNotesChange_def handleDurationChange_def
       handleDateChange_def Let_def split: jsdate.splits)

lemma run_blankInner:
  "blankInner (subtasks (fst (run evs s))) \<le> blankInner (subtasks s) + innerClearings evs s"
proof (induction evs arbitrary: s)
  case Nil
  show ?case by simp
next
  case (Cons ev evs)
  have "blankInner (subtasks (fst (run evs (fst (dispatch ev s))))) \<le>
        blankInner (subtasks (fst (dispatch ev s))) + innerClearings evs (fst (dispatch ev s))"
    by (rule Cons.IH)
  with dispatch_blankInner [of ev s] show ?case
    by (simp only: fst_run_Cons innerClearings.simps)
qed

lemma digitOf_less_10: "digitOf c < 10 \<longleftrightarrow> isDigit c"
  by (auto simp: digitOf_def isDigit_def)

lemma isDigit_not_space: "isDigit c \<Longrightarrow> \<not> isWhiteSpace c"
  by (auto simp: isDigit_def isWhiteSpace_def)

lemma decimal_digits: "\<forall>c\<in>set (decimal n). isDigit c"
proof (induction n rule: decimal.induct)
  case (1 n)
  show ?case
  proof (cases "n < 10")
    case True
    then show ?thesis by (simp add: decimal.simps [of n] isDigit_def)
  next
    case False
    moreover have "n mod 10 < 10" by simp
    ultimately show ?thesis using 1 by (auto simp: decimal.simps [of n] isDigit_def)
  qed
qed

lemma decimal_not_Nil: "decimal n \<noteq> []"
  by (subst decimal.simps) simp

lemma decimal_hd: "hd (decimal n) = 48 \<Longrightarrow> n = 0"
proof (induction n rule: decimal.induct)
  case (1 n)
  show ?case
  proof (cases "n < 10")
    case True
    with 1(2) show ?thesis by (simp add: decimal.simps [of n])
  next
    case False
    with 1(2) have "hd (decimal (n div 10)) = 48"
      by (simp add: decimal.simps [of n] decimal_not_Nil)
    with False 1(1) have "n div 10 = 0" by simp
    with False show ?thesis by simp
  qed
qed

lemma decimal_length: "2 \<le> length (decimal n) \<Longrightarrow> 10 \<le> n"
  by (cases "n < 10") (simp_all add: decimal.simps [of n])

lemma decimal_value: "foldl (\<lambda>acc c. acc * 10 + digitOf c) 0 (decimal n) = n"
proof (induction n rule: decimal.induct)
  case (1 n)
  show ?case
  proof (cases "n < 10")
    case True
    then show ?thesis by (simp add: decimal.simps [of n] digitOf_def)
  next
    case False
    moreover have "digitOf (48 + n mod 10) = n mod 10"
      by (simp add: digitOf_def)
    ultimately show ?thesis using 1 by (simp add: decimal.simps [of n])
  qed
qed

lemma parseInt_radix10:
  assumes "trimStart v = S"
    and "(if S \<noteq> [] \<and> (hd S = 43 \<or> hd S = 45) then tl S else S) = S1"
    and "\<not> (2 \<le> length S1 \<and> S1 ! 0 = 48 \<and> (S1 ! 1 = 120 \<or> S1 ! 1 = 88))"
    and "takeWhile (\<lambda>c. digitOf c < 10) S1 = Z"
  shows "parseInt v =
           (if Z = [] then NaN
            else toNumber ((if S \<noteq> [] \<and> hd S = 45 then - 1 else 1) *
                           int (foldl (\<lambda>acc c. acc * 10 + digitOf c) 0 Z)))"
  by (simp only: parseInt_def Let_def assms if_False)

lemma parseInt_decimal: "parseInt (decimal n) = toNumber (int n)"
proof -
  let ?s = "decimal n"
  have ne: "?s \<noteq> []" by (rule decimal_not_Nil)
  then have h: "hd ?s \<in> set ?s" by simp
  with decimal_digits have dh: "isDigit (hd ?s)" by blast
  then have "\<not> isWhiteSpace (hd ?s)" by (rule isDigit_not_space)
  with ne have ts: "trimStart ?s = ?s" by (cases ?s) (simp_all add: trimStart_def)
  from dh have sg: "hd ?s \<noteq> 45 \<and> hd ?s \<noteq> 43" by (auto simp: isDigit_def)
  then have s1: "(if ?s \<noteq> [] \<and> (hd ?s = 43 \<or> hd ?s = 45) then tl ?s else ?s) = ?s"
    by simp
  have nohex: "\<not> (2 \<le> length ?s \<and> ?s ! 0 = 48 \<and> (?s ! 1 = 120 \<or> ?s ! 1 = 88))"
  proof
    assume a: "2 \<le> length ?s \<and> ?s ! 0 = 48 \<and> (?s ! 1 = 120 \<or> ?s ! 1 = 88)"
    then have "10 \<le> n" by (simp add: decimal_length)
    moreover from a ne have "hd ?s = 48" by (simp add: hd_conv_nth)
    then have "n = 0" by (rule decimal_hd)
    ultimately show False by simp
  qed
  have tw: "takeWhile (\<lambda>c. digitOf c < 10) ?s = ?s"
    using decimal_digits by (simp add: digitOf_less_10)
  show ?thesis
    using ne sg by (simp add: parseInt_radix10 [OF ts s1 nohex tw] decimal_value)
qed

lemma parseInt_no_digit:
  assumes "\<forall>c\<in>set v. \<not> isDigit c"
  shows "parseInt v = NaN"
proof -
  define S where "S = trimStart v"
  define S1 where "S1 = (if S \<noteq> [] \<and> (hd S = 43 \<or> hd S = 45) then tl S else S)"
  have "set S \<subseteq> set v" by (auto simp: S_def trimStart_def dest: set_dropWhileD)
  moreover have "set S1 \<subseteq> set S" by (auto simp: S1_def dest: list.set_sel(2))
  ultimately have sub: "set S1 \<subseteq> set v" by blast
  with assms have nd: "\<forall>c\<in>set S1. \<not> isDigit c" by blast
  have nohex: "\<not> (2 \<le> length S1 \<and> S1 ! 0 = 48 \<and> (S1 ! 1 = 120 \<or> S1 ! 1 = 88))"
  proof
    assume a: "2 \<le> length S1 \<and> S1 ! 0 = 48 \<and> (S1 ! 1 = 120 \<or> S1 ! 1 = 88)"
    then have "S1 ! 0 \<in> set S1" by (intro nth_mem) linarith
    with a nd have "\<not> isDigit 48" by metis
    then show False by (simp add: isDigit_def)
  qed
  have tw: "takeWhile (\<lambda>c. digitOf c < 10) S1 = []"
    using nd by (cases S1) (simp_all add: digitOf_less_10)
  show ?thesis
    by (simp add: parseInt_radix10 [OF S_def [symmetric] S1_def [symmetric] nohex tw])
qed

section \<open>Day arithmetic\<close>

lemma div_bounds:
  fixes a c :: int
  assumes "0 < c"
  shows "c * (a div c) \<le> a" and "a < c * (a div c) + c"
proof -
  have "a = c * (a div c) + a mod c" by simp
  moreover from assms have "0 \<le> a mod c" "a mod c < c" by simp_all
  ultimately show "c * (a div c) \<le> a" and "a < c * (a div c) + c" by linarith+
qed

lemma div_step:
  fixes a c :: int
  assumes "0 < c"
  shows "(a + 1) div c = a div c + (if (a + 1) mod c = 0 then 1 else 0)"
proof (cases "(a + 1) mod c = 0")
  case True
  then have "c dvd a + 1" by (simp add: dvd_eq_mod_eq_0)
  then obtain k where k: "a + 1 = c * k" by (auto simp: dvd_def)
  then have "a = c * (k - 1) + (c - 1)" by (simp add: algebra_simps)
  moreover from assms have "(c * (k - 1) + (c - 1)) div c = k - 1"
    by (simp add: div_pos_pos_trivial)
  moreover from k assms have "(a + 1) div c = k" by simp
  ultimately show ?thesis using True by simp
next
  case False
  from assms have b: "0 \<le> (a + 1) mod c" "(a + 1) mod c < c" by simp_all
  with False have p: "0 < (a + 1) mod c" by linarith
  have "a + 1 = c * ((a + 1) div c) + (a + 1) mod c" by simp
  then have "a = c * ((a + 1) div c) + ((a + 1) mod c - 1)" by linarith
  moreover from p b have "0 \<le> (a + 1) mod c - 1" "(a + 1) mod c - 1 < c" by linarith+
  ultimately have "a div c = (a + 1) div c"
    by (metis add.commute assms div_mult_self2 div_pos_pos_trivial add_cancel_right_left less_irrefl)
  with False show ?thesis by simp
qed


lemma mod_shift:
  fixes y k c :: int
  assumes "c dvd k"
  shows "(y - k) mod c = 0 \<longleftrightarrow> y mod c = 0"
  using assms by (simp add: mod_eq_0_iff_dvd dvd_diff_left_iff)

lemma leap_mods:
  fixes y :: int
  shows "(y - 1968) mod 4 = 0 \<longleftrightarrow> y mod 4 = 0"
    and "(y - 1900) mod 100 = 0 \<longleftrightarrow> y mod 100 = 0"
    and "(y - 1600) mod 400 = 0 \<longleftrightarrow> y mod 400 = 0"
    and "y mod 100 = 0 \<Longrightarrow> y mod 4 = 0"
    and "y mod 400 = 0 \<Longrightarrow> y mod 100 = 0"
proof -
  show "(y - 1968) mod 4 = 0 \<longleftrightarrow> y mod 4 = 0" by (rule mod_shift) simp
  show "(y - 1900) mod 100 = 0 \<longleftrightarrow> y mod 100 = 0" by (rule mod_shift) simp
  show "(y - 1600) mod 400 = 0 \<longleftrightarrow> y mod 400 = 0" by (rule mod_shift) simp
  have d: "(4::int) dvd 100" "(100::int) dvd 400" by simp_all
  show "y mod 4 = 0" if "y mod 100 = 0"
  proof -
    from that have "100 dvd y" by (simp add: mod_eq_0_iff_dvd)
    with d(1) have "4 dvd y" by (rule dvd_trans)
    then show ?thesis by (simp add: mod_eq_0_iff_dvd)
  qed
  show "y mod 100 = 0" if "y mod 400 = 0"
  proof -
    from that have "400 dvd y" by (simp add: mod_eq_0_iff_dvd)
    with d(2) have "100 dvd y" by (rule dvd_trans)
    then show ?thesis by (simp add: mod_eq_0_iff_dvd)
  qed
qed

lemma DayFromYear_Suc: "DayFromYear (y + 1) = DayFromYear y + DaysInYear y"
proof -
  define q4 where "q4 = (y - 1969) div 4"
  define q100 where "q100 = (y - 1901) div 100"
  define q400 where "q400 = (y - 1601) div 400"
  define i4 :: int where "i4 = (if y mod 4 = 0 then 1 else 0)"
  define i100 :: int where "i100 = (if y mod 100 = 0 then 1 else 0)"
  define i400 :: int where "i400 = (if y mod 400 = 0 then 1 else 0)"
  have "(y - 1969 + 1) div 4 = q4 + i4"
    unfolding q4_def i4_def by (subst div_step) (simp_all add: leap_mods(1))
  then have e4: "(y - 1968) div 4 = q4 + i4" by simp
  have "(y - 1901 + 1) div 100 = q100 + i100"
    unfolding q100_def i100_def by (subst div_step) (simp_all add: leap_mods(2))
  then have e100: "(y - 1900) div 100 = q100 + i100" by simp
  have "(y - 1601 + 1) div 400 = q400 + i400"
    unfolding q400_def i400_def by (subst div_step) (simp_all add: leap_mods(3))
  then have e400: "(y - 1600) div 400 = q400 + i400" by simp
  have s: "DayFromYear (y + 1) = 365 * y - 718685 + (q4 + i4) - (q100 + i100) + (q400 + i400)"
    by (simp add: DayFromYear_def e4 e100 e400)
  have o: "DayFromYear y = 365 * y - 719050 + q4 - q100 + q400"
    by (simp add: DayFromYear_def q4_def q100_def q400_def)
  have "DaysInYear y = 365 + i4 - i100 + i400"
    using leap_mods(4) [of y] leap_mods(5) [of y]
    by (auto simp: DaysInYear_def i4_def i100_def i400_def)
  with s o show ?thesis by linarith
qed

lemma DayFromYear_bounds:
  "146097 * y - 287811697 \<le> 400 * DayFromYear y"
  "400 * DayFromYear y \<le> 146097 * y - 287810497"
proof -
  define q4 where "q4 = (y - 1969) div 4"
  define q100 where "q100 = (y - 1901) div 100"
  define q400 where "q400 = (y - 1601) div 400"
  have "4 * q4 \<le> y - 1969" "y - 1969 < 4 * q4 + 4"
    "100 * q100 \<le> y - 1901" "y - 1901 < 100 * q100 + 100"
    "400 * q400 \<le> y - 1601" "y - 1601 < 400 * q400 + 400"
    unfolding q4_def q100_def q400_def
    using div_bounds [of 4 "y - 1969"] div_bounds [of 100 "y - 1901"]
      div_bounds [of 400 "y - 1601"] by simp_all
  moreover have "DayFromYear y = 365 * y - 719050 + q4 - q100 + q400"
    by (simp add: DayFromYear_def q4_def q100_def q400_def)
  ultimately show "146097 * y - 287811697 \<le> 400 * DayFromYear y"
    and "400 * DayFromYear y \<le> 146097 * y - 287810497"
    by linarith+
qed

lemma DaysInYear_cases: "DaysInYear y = 365 \<or> DaysInYear y = 366"
  by (simp add: DaysInYear_def)

lemma DayFromYear_mono: "DayFromYear y < DayFromYear (y + 1)"
  using DaysInYear_cases [of y] by (auto simp: DayFromYear_Suc)

lemma YearFromDay_unique:
  assumes "DayFromYear y \<le> n" and "n < DayFromYear (y + 1)"
  shows "YearFromDay n = y"
proof -
  define y0 where "y0 = 1970 + (n * 400) div 146097"
  have b: "146097 * y0 - 287811090 \<le> 400 * n" "400 * n < 146097 * y0 - 287664993"
    using div_bounds [of 146097 "n * 400"] by (simp_all add: y0_def algebra_simps)
  have lo: "y - 1 \<le> y0"
  proof (rule ccontr)
    assume "\<not> y - 1 \<le> y0"
    then have "y0 \<le> y - 2" by linarith
    with b(2) DayFromYear_bounds(1) [of y] assms(1) show False by linarith
  qed
  have hi: "y0 \<le> y + 1"
  proof (rule ccontr)
    assume "\<not> y0 \<le> y + 1"
    then have "y + 2 \<le> y0" by linarith
    moreover have "400 * DayFromYear (y + 1) \<le> 146097 * y - 287664400"
      using DayFromYear_bounds(2) [of "y + 1"] by (simp add: algebra_simps)
    ultimately show False using b(1) assms(2) by linarith
  qed
  from lo hi consider "y0 = y - 1" | "y0 = y" | "y0 = y + 1" by linarith
  then have "(if n < DayFromYear y0 then y0 - 1
              else if DayFromYear (y0 + 1) \<le> n then y0 + 1 else y0) = y"
  proof cases
    case 1
    with DayFromYear_mono [of "y - 1"] assms show ?thesis by simp
  next
    case 2
    with assms show ?thesis by simp
  next
    case 3
    with assms show ?thesis by simp
  qed
  then show ?thesis by (simp only: YearFromDay_def Let_def y0_def)
qed

lemma InLeapYear_cases: "InLeapYear y = 0 \<and> DaysInYear y = 365 \<or> InLeapYear y = 1 \<and> DaysInYear y = 366"
  using DaysInYear_cases [of y] by (auto simp: InLeapYear_def)

lemma month_cases:
  fixes m :: int
  assumes "0 \<le> m" and "m \<le> 11"
  shows "m = 0 \<or> m = 1 \<or> m = 2 \<or> m = 3 \<or> m = 4 \<or> m = 5 \<or> m = 6 \<or> m = 7 \<or> m = 8 \<or>
         m = 9 \<or> m = 10 \<or> m = 11"
  using assms by presburger

lemma MakeDay_within_year:
  assumes "0 \<le> m" and "m \<le> 11" and "1 \<le> d" and "d \<le> DaysInMonth y m"
  shows "DayFromYear y \<le> MakeDay y m d" and "MakeDay y m d < DayFromYear (y + 1)"
  using month_cases [OF assms(1,2)] assms(3,4) InLeapYear_cases [of y]
  by (elim disjE conjE; simp add: MakeDay_def DaysInMonth_def monthStart_def DayFromYear_Suc)+

lemma YearFromDay_MakeDay:
  assumes "0 \<le> m" and "m \<le> 11" and "1 \<le> d" and "d \<le> DaysInMonth y m"
  shows "YearFromDay (MakeDay y m d) = y"
  using MakeDay_within_year [OF assms] by (rule YearFromDay_unique)

lemma MonthFromDay_MakeDay:
  assumes "0 \<le> m" and "m \<le> 11" and "1 \<le> d" and "d \<le> DaysInMonth y m"
  shows "MonthFromDay (MakeDay y m d) = m"
proof -
  have "MakeDay y m d - DayFromYear y = monthStart m (InLeapYear y) + d - 1"
    by (simp add: MakeDay_def)
  then show ?thesis
    using month_cases [OF assms(1,2)] assms(3,4) InLeapYear_cases [of y]
    unfolding MonthFromDay_def Let_def YearFromDay_MakeDay [OF assms]
    by (elim disjE conjE; simp add: DaysInMonth_def monthStart_def)
qed

lemma DateFromDay_MakeDay:
  assumes "0 \<le> m" and "m \<le> 11" and "1 \<le> d" and "d \<le> DaysInMonth y m"
  shows "DateFromDay (MakeDay y m d) = d"
  unfolding DateFromDay_def Let_def YearFromDay_MakeDay [OF assms] MonthFromDay_MakeDay [OF assms]
  by (simp add: MakeDay_def)

lemma digitsValue_snoc: "digitsValue (ds @ [c]) = digitsValue ds * 10 + (c - 48)"
  by (simp add: digitsValue_def)

lemma decimal_small: "k < 10 \<Longrightarrow> decimal k = [48 + k]"
  by (simp add: decimal.simps [of k])

lemma decimal_step: "0 < v \<Longrightarrow> k < 10 \<Longrightarrow> decimal (v * 10 + k) = decimal v @ [48 + k]"
  by (simp add: decimal.simps [of "v * 10 + k"])

lemma padStart_decimal:
  "list_all isDigit ds \<Longrightarrow> ds \<noteq> [] \<Longrightarrow> padStart (length ds) (decimal (digitsValue ds)) = ds"
proof (induction ds rule: rev_induct)
  case Nil
  then show ?case by simp
next
  case (snoc c ds)
  from snoc.prems have c: "48 \<le> c" "c - 48 < 10" "48 + (c - 48) = c"
    by (auto simp: isDigit_def)
  show ?case
  proof (cases "ds = []")
    case True
    with c show ?thesis
      by (simp add: digitsValue_def decimal_small padStart_def)
  next
    case False
    with snoc have ih: "padStart (length ds) (decimal (digitsValue ds)) = ds" by simp
    show ?thesis
    proof (cases "digitsValue ds = 0")
      case True
      with ih have "replicate (length ds - 1) 48 @ [48] = ds"
        by (simp add: padStart_def decimal_small)
      moreover from False have "replicate (length ds - 1) 48 @ [48] = replicate (length ds) (48::nat)"
        by (cases ds) (simp_all add: replicate_append_same)
      ultimately have "replicate (length ds) 48 = ds" by simp
      with True c show ?thesis
        by (simp add: digitsValue_snoc decimal_small padStart_def)
    next
      case nz: False
      from ih have len: "length (decimal (digitsValue ds)) \<le> length ds"
        by (metis padStart_def length_append le_add2)
      from nz c(2) have "decimal (digitsValue ds * 10 + (c - 48)) =
                         decimal (digitsValue ds) @ [48 + (c - 48)]"
        by (intro decimal_step) simp_all
      then have "decimal (digitsValue (ds @ [c])) = decimal (digitsValue ds) @ [c]"
        by (simp only: digitsValue_snoc c(3))
      with ih len show ?thesis
        by (simp add: padStart_def Suc_diff_le)
    qed
  qed
qed

lemma digitsValue_bound: "list_all isDigit ds \<Longrightarrow> digitsValue ds < 10 ^ length ds"
proof (induction ds rule: rev_induct)
  case Nil
  then show ?case by (simp add: digitsValue_def)
next
  case (snoc c ds)
  then have "digitsValue ds < 10 ^ length ds" and "c - 48 < 10"
    by (auto simp: isDigit_def)
  then show ?case by (simp add: digitsValue_snoc)
qed

lemma date_string_parts:
  assumes "length D = 10" and "D ! 4 = c" and "D ! 7 = c'"
  shows "D = take 4 D @ [c] @ take 2 (drop 5 D) @ [c'] @ drop 8 D"
proof -
  from assms(1) obtain a0 a1 a2 a3 a4 a5 a6 a7 a8 a9 where
    "D = [a0, a1, a2, a3, a4, a5, a6, a7, a8, a9]"
    by (auto simp: length_Suc_conv numeral_eq_Suc)
  with assms(2,3) show ?thesis by simp
qed

section \<open>The due date across timezones\<close>

lemma isDateOnly_parts:
  assumes "isDateOnly D"
  obtains y m d where
    "length D = 10" "D ! 4 = 45" "D ! 7 = 45"
    "list_all isDigit (take 4 D)" "list_all isDigit (take 2 (drop 5 D))"
    "list_all isDigit (drop 8 D)"
    "y = int (digitsValue (take 4 D))" "m = int (digitsValue (take 2 (drop 5 D)))"
    "d = int (digitsValue (drop 8 D))"
    "1 \<le> m" "m \<le> 12" "1 \<le> d" "d \<le> DaysInMonth y (m - 1)"
    "newDateFromString legacy D = TimeValue (MakeDay y (m - 1) d * msPerDay)"
  using assms unfolding newDateFromString_def isDateOnly_def Let_def
  by auto

lemma Day_of_shifted:
  assumes "0 \<le> r" and "r < msPerDay"
  shows "Day (n * msPerDay + r) = n"
proof -
  have "0 < msPerDay" by (simp add: msPerDay_def)
  moreover from assms have "r div msPerDay = 0" by (simp add: div_pos_pos_trivial)
  ultimately show ?thesis by (simp add: Day_def)
qed

lemma takeWhile_date_part:
  assumes "\<forall>c\<in>set pre. c \<noteq> 84"
  shows "takeWhile (\<lambda>c. c \<noteq> 84) (pre @ [84] @ rest) = pre"
  using assms by (simp add: takeWhile_append2)

lemma digit_not_T: "list_all isDigit ds \<Longrightarrow> \<forall>c\<in>set ds. c \<noteq> 84"
  by (auto simp: list_all_iff isDigit_def)

text \<open>
  For a valid date-only string and an offset from 0 up to (not including) 1440 minutes,
  that is in UTC and west of it, the stored date is shown as the string that was entered.
\<close>

lemma due_date_kept_west_of_utc:
  assumes v: "isDateOnly D"
    and off: "0 \<le> tzOffset" "tzOffset < 1440"
  shows "formatDateForInput (dueDate (handleDateChange D legacy tzOffset s)) = Inr D"
proof -
  from v obtain y m d where p:
    "length D = 10" "D ! 4 = 45" "D ! 7 = 45"
    "list_all isDigit (take 4 D)" "list_all isDigit (take 2 (drop 5 D))"
    "list_all isDigit (drop 8 D)"
    "y = int (digitsValue (take 4 D))" "m = int (digitsValue (take 2 (drop 5 D)))"
    "d = int (digitsValue (drop 8 D))"
    "1 \<le> m" "m \<le> 12" "1 \<le> d" "d \<le> DaysInMonth y (m - 1)"
    "newDateFromString legacy D = TimeValue (MakeDay y (m - 1) d * msPerDay)"
    by (rule isDateOnly_parts)
  define n where "n = MakeDay y (m - 1) d"
  have md: "0 \<le> m - 1" "m - 1 \<le> 11" using p(10,11) by simp_all
  note valid = md p(12,13)
  have yr: "YearFromDay n = y" and mo: "MonthFromDay n = m - 1" and da: "DateFromDay n = d"
    unfolding n_def
    by (rule YearFromDay_MakeDay [OF valid], rule MonthFromDay_MakeDay [OF valid],
        rule DateFromDay_MakeDay [OF valid])
  \<comment> \<open>the year has four digits, so the day number is far inside the range of time values\<close>
  from p(1,4) have "digitsValue (take 4 D) < 10 ^ 4"
    using digitsValue_bound [of "take 4 D"] by simp
  with p(7) have y: "0 \<le> y" "y \<le> 9999" by simp_all
  have nb: "DayFromYear y \<le> n" "n < DayFromYear (y + 1)"
    unfolding n_def by (rule MakeDay_within_year [OF valid])+
  have "400 * DayFromYear (y + 1) \<le> 146097 * y - 287664400"
    using DayFromYear_bounds(2) [of "y + 1"] by (simp add: algebra_simps)
  with nb DayFromYear_bounds(1) [of y] y have n: "- 1000000 \<le> n" "n \<le> 3000000" by linarith+
  define r where "r = tzOffset * 60000"
  from off have r: "0 \<le> r" "r < msPerDay" by (simp_all add: r_def msPerDay_def)
  have t: "newDateFromString legacy D = TimeValue (n * msPerDay)" by (simp add: p(14) n_def)
  have "\<bar>n * msPerDay + r\<bar> \<le> 8640000000000000"
    using n r unfolding msPerDay_def by linarith
  then have due: "dueDate (handleDateChange D legacy tzOffset s) = TimeValue (n * msPerDay + r)"
    by (simp add: handleDateChange_def t newDateFromTime_def Let_def r_def)
  have day: "Day (n * msPerDay + r) = n" using r by (rule Day_of_shifted)
  \<comment> \<open>the three fields print as they were read\<close>
  have l: "length (take 4 D) = 4" "length (take 2 (drop 5 D)) = 2" "length (drop 8 D) = 2"
    using p(1) by simp_all
  then have ne: "take 4 D \<noteq> []" "take 2 (drop 5 D) \<noteq> []" "drop 8 D \<noteq> []"
    by auto
  have Y: "isoYear y = take 4 D"
    using padStart_decimal [OF p(4) ne(1)] y by (simp add: isoYear_def p(7) p(1))
  have M: "padStart 2 (decimal (nat m)) = take 2 (drop 5 D)"
    using padStart_decimal [OF p(5) ne(2)] by (simp add: p(8) p(1))
  have Dd: "padStart 2 (decimal (nat d)) = drop 8 D"
    using padStart_decimal [OF p(6) ne(3)] by (simp add: p(9) p(1))
  let ?pre = "take 4 D @ [45] @ take 2 (drop 5 D) @ [45] @ drop 8 D"
  have pre: "\<forall>c\<in>set ?pre. c \<noteq> 84"
    using digit_not_T [OF p(4)] digit_not_T [OF p(5)] digit_not_T [OF p(6)] by auto
  have "\<exists>rest. toISOString (TimeValue (n * msPerDay + r)) = Inr (?pre @ [84] @ rest)"
    by (simp add: toISOString_def Let_def day yr mo da Y M Dd)
  then obtain rest where
    iso: "toISOString (TimeValue (n * msPerDay + r)) = Inr (?pre @ [84] @ rest)" ..
  have "formatDateForInput (TimeValue (n * msPerDay + r)) = Inr ?pre"
    unfolding formatDateForInput_def iso using takeWhile_date_part [OF pre] by simp
  moreover have "D = ?pre" using p(1,2,3) by (rule date_string_parts)
  ultimately show ?thesis by (simp add: due)
qed

lemma digitsValue_zeros: "digitsValue (replicate j 48 @ xs) = digitsValue xs"
proof -
  have "foldl (\<lambda>acc c. acc * 10 + (c - 48)) 0 (replicate j (48::nat)) = 0"
    by (induction j) simp_all
  then show ?thesis by (simp add: digitsValue_def)
qed

lemma digitsValue_decimal: "digitsValue (decimal k) = k"
proof (induction k rule: decimal.induct)
  case (1 n)
  show ?case
  proof (cases "n < 10")
    case True
    then show ?thesis by (simp add: decimal.simps [of n] digitsValue_def)
  next
    case False
    with 1 show ?thesis by (simp add: decimal.simps [of n] digitsValue_snoc)
  qed
qed

lemma digitsValue_padStart: "digitsValue (padStart w (decimal k)) = k"
  by (simp add: padStart_def digitsValue_zeros digitsValue_decimal)

lemma length_decimal_100: "k < 100 \<Longrightarrow> length (decimal k) \<le> 2"
proof (cases "k < 10")
  case True
  then show ?thesis by (simp add: decimal_small)
next
  case False
  assume "k < 100"
  then have "k div 10 < 10" by simp
  then have "decimal (k div 10) = [48 + k div 10]" by (rule decimal_small)
  with False show ?thesis by (simp add: decimal.simps [of k])
qed

lemma length_padStart_2: "k < 100 \<Longrightarrow> length (padStart 2 (decimal k)) = 2"
  using length_decimal_100 [of k] by (simp add: padStart_def)

lemma padStart_digits: "\<forall>c\<in>set (padStart w (decimal k)). isDigit c"
  using decimal_digits [of k] by (auto simp: padStart_def isDigit_def)

lemma padStart_not_T: "c \<in> set (padStart w (decimal k)) \<Longrightarrow> c \<noteq> 84"
  using padStart_digits [of w k] by (auto simp: isDigit_def)

lemma isoYear_not_T: "\<forall>c\<in>set (isoYear y). c \<noteq> 84"
  by (auto simp: isoYear_def dest: padStart_not_T)

lemma DaysInMonth_ge:
  assumes "0 \<le> m" and "m \<le> 11"
  shows "28 \<le> DaysInMonth y m \<and> DaysInMonth y m \<le> 31"
  using month_cases [OF assms] InLeapYear_cases [of y]
  by (elim disjE conjE; simp add: DaysInMonth_def monthStart_def)

lemma DateFromDay_previous:
  assumes "0 \<le> m" and "m \<le> 11" and "1 \<le> d" and "d \<le> DaysInMonth y m"
  shows "DateFromDay (MakeDay y m d - 1) \<noteq> d \<and>
         1 \<le> DateFromDay (MakeDay y m d - 1) \<and> DateFromDay (MakeDay y m d - 1) \<le> 31"
proof (cases "1 < d")
  case True
  then have "MakeDay y m d - 1 = MakeDay y m (d - 1)" by (simp add: MakeDay_def)
  moreover from True assms have "DateFromDay (MakeDay y m (d - 1)) = d - 1"
    by (intro DateFromDay_MakeDay) simp_all
  moreover from assms DaysInMonth_ge [OF assms(1,2), of y] have "d \<le> 31" by simp
  ultimately show ?thesis using True by simp
next
  case False
  with assms have d: "d = 1" by simp
  show ?thesis
  proof (cases "m = 0")
    case True
    have "DayFromYear y = DayFromYear (y - 1) + DaysInYear (y - 1)"
      using DayFromYear_Suc [of "y - 1"] by simp
    then have "MakeDay y m d - 1 = MakeDay (y - 1) 11 31"
      using InLeapYear_cases [of "y - 1"] True d
      by (auto simp: MakeDay_def monthStart_def)
    moreover have "DateFromDay (MakeDay (y - 1) 11 31) = 31"
      by (intro DateFromDay_MakeDay) (simp_all add: DaysInMonth_def)
    ultimately show ?thesis using d by simp
  next
    case False
    with assms have m: "0 \<le> m - 1" "m - 1 \<le> 10" by simp_all
    then have dim: "DaysInMonth y (m - 1) =
                    monthStart m (InLeapYear y) - monthStart (m - 1) (InLeapYear y)"
      by (simp add: DaysInMonth_def)
    then have "MakeDay y m d - 1 = MakeDay y (m - 1) (DaysInMonth y (m - 1))"
      using d by (simp add: MakeDay_def)
    moreover have "0 \<le> m - 1" "m - 1 \<le> 11" using m by simp_all
    from DaysInMonth_ge [OF this, of y]
    have g: "28 \<le> DaysInMonth y (m - 1)" "DaysInMonth y (m - 1) \<le> 31" by simp_all
    then have "DateFromDay (MakeDay y (m - 1) (DaysInMonth y (m - 1))) = DaysInMonth y (m - 1)"
      using m by (intro DateFromDay_MakeDay) simp_all
    ultimately show ?thesis using d g by simp
  qed
qed

text \<open>
  For a valid date-only string and a negative offset down to -1440 minutes, that is east
  of UTC, the stored date falls on the previous UTC day and is shown as a different string.
\<close>

lemma due_date_shifted_east_of_utc:
  assumes v: "isDateOnly D"
    and off: "- 1440 \<le> tzOffset" "tzOffset < 0"
  shows "\<exists>D'. formatDateForInput (dueDate (handleDateChange D legacy tzOffset s)) = Inr D' \<and>
              D' \<noteq> D"
proof -
  from v obtain y m d where p:
    "length D = 10" "D ! 4 = 45" "D ! 7 = 45"
    "list_all isDigit (take 4 D)" "list_all isDigit (take 2 (drop 5 D))"
    "list_all isDigit (drop 8 D)"
    "y = int (digitsValue (take 4 D))" "m = int (digitsValue (take 2 (drop 5 D)))"
    "d = int (digitsValue (drop 8 D))"
    "1 \<le> m" "m \<le> 12" "1 \<le> d" "d \<le> DaysInMonth y (m - 1)"
    "newDateFromString legacy D = TimeValue (MakeDay y (m - 1) d * msPerDay)"
    by (rule isDateOnly_parts)
  define n where "n = MakeDay y (m - 1) d"
  have md: "0 \<le> m - 1" "m - 1 \<le> 11" using p(10,11) by simp_all
  note valid = md p(12,13)
  from p(1,4) have "digitsValue (take 4 D) < 10 ^ 4"
    using digitsValue_bound [of "take 4 D"] by simp
  with p(7) have y: "0 \<le> y" "y \<le> 9999" by simp_all
  have nb: "DayFromYear y \<le> n" "n < DayFromYear (y + 1)"
    unfolding n_def by (rule MakeDay_within_year [OF valid])+
  have "400 * DayFromYear (y + 1) \<le> 146097 * y - 287664400"
    using DayFromYear_bounds(2) [of "y + 1"] by (simp add: algebra_simps)
  with nb DayFromYear_bounds(1) [of y] y have n: "- 1000000 \<le> n" "n \<le> 3000000" by linarith+
  define r where "r = tzOffset * 60000 + msPerDay"
  from off have r: "0 \<le> r" "r < msPerDay" by (simp_all add: r_def msPerDay_def)
  have t: "newDateFromString legacy D = TimeValue (n * msPerDay)" by (simp add: p(14) n_def)
  have tr: "n * msPerDay + tzOffset * 60000 = (n - 1) * msPerDay + r"
    by (simp add: r_def algebra_simps)
  have "(n - 1) * msPerDay = n * 86400000 - 86400000"
    by (simp add: msPerDay_def algebra_simps)
  with n r have "\<bar>(n - 1) * msPerDay + r\<bar> \<le> 8640000000000000"
    unfolding msPerDay_def by linarith
  then have due: "dueDate (handleDateChange D legacy tzOffset s) =
                  TimeValue ((n - 1) * msPerDay + r)"
    by (simp add: handleDateChange_def t newDateFromTime_def Let_def tr)
  have day: "Day ((n - 1) * msPerDay + r) = n - 1" using r by (rule Day_of_shifted)
  define e where "e = DateFromDay (n - 1)"
  from DateFromDay_previous [OF valid] have e: "e \<noteq> d" "1 \<le> e" "e \<le> 31"
    by (simp_all add: e_def n_def)
  define pre where
    "pre = isoYear (YearFromDay (n - 1)) @ [45] @
           padStart 2 (decimal (nat (MonthFromDay (n - 1) + 1))) @ [45]"
  define dd where "dd = padStart 2 (decimal (nat e))"
  have ldd: "length dd = 2" using e by (simp add: dd_def length_padStart_2)
  have "\<forall>c\<in>set (pre @ dd). c \<noteq> 84"
    using isoYear_not_T [of "YearFromDay (n - 1)"]
    by (auto simp: pre_def dd_def dest: padStart_not_T)
  moreover have "\<exists>rest. toISOString (TimeValue ((n - 1) * msPerDay + r)) =
                   Inr ((pre @ dd) @ [84] @ rest)"
    by (simp add: toISOString_def Let_def day pre_def dd_def e_def)
  ultimately have f: "formatDateForInput (TimeValue ((n - 1) * msPerDay + r)) = Inr (pre @ dd)"
    unfolding formatDateForInput_def using takeWhile_date_part [of "pre @ dd"] by auto
  have "pre @ dd \<noteq> D"
  proof
    assume eq: "pre @ dd = D"
    then have "length pre + length dd = length D" by (metis length_append)
    with p(1) ldd have "length pre = 8" by simp
    with eq have "drop 8 D = dd" by auto
    then have "digitsValue (drop 8 D) = nat e" by (simp add: dd_def digitsValue_padStart)
    with p(9) e show False by simp
  qed
  with f due show ?thesis by simp
qed

section \<open>The example drafts, evaluated\<close>

lemmas eval_simps =
  str_def isWhiteSpace_def trimStart_def trimEnd_def trim_def initialState_def
  handleSubtaskChange_def addSubtask_def removeSubtask_def addSubtaskDisabled_def
  objectOf_def restWithout_def finalSubtasks_def handleSubmit_def handleTitleChange_def
  handleNotesChange_def handleDurationChange_def parseInt_def digitOf_def isDigit_def
  toNumber_def blankRow_def homeList_def inboxList_def workList_def Let_def

lemma openedDraft_eq:
  "openedDraft =
     \<lparr> title = [], listId = 1, dueDate = TimeValue 1704067200000, startTime = [],
       duration = Num 60, isFixed = False, completed = False, important = False, notes' = [],
       subtasks = [] \<rparr>"
  by (simp add: openedDraft_def initialState_def homeList_def)

lemma run_milkEvents:
  "run milkEvents openedDraft =
     (\<lparr> title = str ''  Buy milk  '', listId = 1, dueDate = TimeValue 1704067200000,
        startTime = [], duration = Num 60, isFixed = False, completed = False, important = False,
        notes' = [],
        subtasks = [\<lparr>sub_id = 1704100001000, sub_title = str ''2% milk'',
                     sub_completed = False\<rparr>] \<rparr>, [])"
  by (simp add: milkEvents_def openedDraft_def eval_simps)

lemma run_trailingEvents:
  "run trailingEvents openedDraft =
     (\<lparr> title = str ''Shop'', listId = 1, dueDate = TimeValue 1704067200000,
        startTime = [], duration = Num 60, isFixed = False, completed = False, important = False,
        notes' = [],
        subtasks = [\<lparr>sub_id = 1704100001000, sub_title = str ''a'', sub_completed = False\<rparr>,
                    \<lparr>sub_id = 1704100002000, sub_title = str ''b'', sub_completed = False\<rparr>,
                    \<lparr>sub_id = 1704100003000, sub_title = [], sub_completed = False\<rparr>] \<rparr>, [])"
  by (simp add: trailingEvents_def openedDraft_def eval_simps)

lemma run_gapEvents:
  "run gapEvents openedDraft =
     (\<lparr> title = str ''Shop'', listId = 1, dueDate = TimeValue 1704067200000,
        startTime = [], duration = Num 60, isFixed = False, completed = False, important = False,
        notes' = [],
        subtasks = [\<lparr>sub_id = 1704100001000, sub_title = [], sub_completed = False\<rparr>,
                    \<lparr>sub_id = 1704100002000, sub_title = str ''b'', sub_completed = False\<rparr>] \<rparr>,
      [])"
  by (simp add: gapEvents_def openedDraft_def eval_simps)

lemma run_twoBlankEvents:
  "run twoBlankEvents openedDraft =
     (\<lparr> title = [], listId = 1, dueDate = TimeValue 1704067200000,
        startTime = [], duration = Num 60, isFixed = False, completed = False, important = False,
        notes' = [],
        subtasks = [\<lparr>sub_id = 1704100001000, sub_title = [], sub_completed = False\<rparr>,
                    \<lparr>sub_id = 1704100002000, sub_title = [], sub_completed = False\<rparr>] \<rparr>,
      [])"
  by (simp add: twoBlankEvents_def openedDraft_def eval_simps)

lemma run_eraseEvents:
  "run eraseEvents openedDraft =
     (\<lparr> title = [], listId = 1, dueDate = TimeValue 1704067200000,
        startTime = [], duration = Num 60, isFixed = False, completed = False, important = False,
        notes' = [],
        subtasks = [\<lparr>sub_id = 1704100004000, sub_title = str ''c'', sub_completed = False\<rparr>,
                    \<lparr>sub_id = 1704100005000, sub_title = str '' '', sub_completed = False\<rparr>] \<rparr>,
      [])"
  by (simp add: eraseEvents_def openedDraft_def eval_simps)

lemma innerClearings_eraseEvents: "innerClearings eraseEvents openedDraft = 0"
  by (simp add: eraseEvents_def openedDraft_def clearsInnerRow_def eval_simps)

lemma milkDraft_eq:
  "milkDraft =
     \<lparr> title = str ''  Buy milk  '', listId = 1, dueDate = TimeValue 1704067200000,
       startTime = [], duration = Num 60, isFixed = False, completed = False, important = False,
       notes' = [],
       subtasks = [\<lparr>sub_id = 1704100001000, sub_title = str ''2% milk'',
                    sub_completed = False\<rparr>] \<rparr>"
  by (simp add: milkDraft_def run_milkEvents)

lemma trailingDraft_eq:
  "trailingDraft =
     \<lparr> title = str ''Shop'', listId = 1, dueDate = TimeValue 1704067200000,
       startTime = [], duration = Num 60, isFixed = False, completed = False, important = False,
       notes' = [],
       subtasks = [\<lparr>sub_id = 1704100001000, sub_title = str ''a'', sub_completed = False\<rparr>,
                   \<lparr>sub_id = 1704100002000, sub_title = str ''b'', sub_completed = False\<rparr>,
                   \<lparr>sub_id = 1704100003000, sub_title = [], sub_completed = False\<rparr>] \<rparr>"
  by (simp add: trailingDraft_def run_trailingEvents)

lemma gapDraft_eq:
  "gapDraft =
     \<lparr> title = str ''Shop'', listId = 1, dueDate = TimeValue 1704067200000,
       startTime = [], duration = Num 60, isFixed = False, completed = False, important = False,
       notes' = [],
       subtasks = [\<lparr>sub_id = 1704100001000, sub_title = [], sub_completed = False\<rparr>,
                   \<lparr>sub_id = 1704100002000, sub_title = str ''b'', sub_completed = False\<rparr>] \<rparr>"
  by (simp add: gapDraft_def run_gapEvents)

section \<open>The due date\<close>

text \<open>
  C1. A date-only string should come back unchanged from \<open>handleDateChange\<close> followed by
  \<open>formatDateForInput\<close> whatever the timezone offset. It does in UTC and west of it
  (\<open>due_date_kept_west_of_utc\<close>), but not east of UTC
  (\<open>due_date_shifted_east_of_utc\<close>): with \<open>getTimezoneOffset() = -480\<close> (UTC+8) the
  day 2024-01-01 is stored as 2023-12-31T16:00:00Z and shown as 2023-12-31, while with an
  offset of 300 (UTC-5) it is shown as entered.
\<close>

theorem date_round_trip_east_of_utc:
  "dueDate (handleDateChange (str ''2024-01-01'') legacy (- 480) openedDraft) =
     TimeValue 1704038400000 \<and>
   formatDateForInput
     (dueDate (handleDateChange (str ''2024-01-01'') legacy (- 480) openedDraft)) =
     Inr (str ''2023-12-31'') \<and>
   formatDateForInput (dueDate (handleDateChange (str ''2024-01-01'') legacy 300 openedDraft)) =
     Inr (str ''2024-01-01'')"
proof -
  have d: "isDateOnly (str ''2024-01-01'')" by code_simp
  have p: "newDateFromString legacy (str ''2024-01-01'') = TimeValue 1704067200000"
    unfolding newDateFromString_def using d by (simp add: Let_def) code_simp
  have e: "dueDate (handleDateChange (str ''2024-01-01'') legacy (- 480) openedDraft) =
           TimeValue 1704038400000"
    "dueDate (handleDateChange (str ''2024-01-01'') legacy 300 openedDraft) =
           TimeValue 1704085200000"
    by (simp_all add: handleDateChange_def p newDateFromTime_def)
  have f: "formatDateForInput (TimeValue 1704038400000) = Inr (str ''2023-12-31'')"
    "formatDateForInput (TimeValue 1704085200000) = Inr (str ''2024-01-01'')"
    by code_simp+
  from e f show ?thesis by simp
qed

section \<open>Submission\<close>

text \<open>
  C4. When the title is empty or consists of white space only, submitting calls neither
  \<open>onAddTask\<close> nor \<open>onClose\<close> and leaves the draft as it is; the only thing the
  handler does is \<open>preventDefault\<close> on the form event.
\<close>

theorem submit_blank_title:
  assumes "list_all isWhiteSpace (title s)"
  shows "dispatch Submit s = (s, [PreventDefault]) \<and>
         (\<forall>p. OnAddTask p \<notin> set (snd (dispatch Submit s))) \<and>
         OnClose \<notin> set (snd (dispatch Submit s))"
  using assms by (simp add: handleSubmit_def trim_Nil_iff)

theorem submit_blank_title_witness:
  "list_all isWhiteSpace (title (openedDraft\<lparr>title := str ''   ''\<rparr>)) \<and>
   dispatch Submit (openedDraft\<lparr>title := str ''   ''\<rparr>) =
     (openedDraft\<lparr>title := str ''   ''\<rparr>, [PreventDefault]) \<and>
   OnClose \<notin> set (snd (dispatch Submit (openedDraft\<lparr>title := str ''   ''\<rparr>)))"
proof -
  have h: "list_all isWhiteSpace (title (openedDraft\<lparr>title := str ''   ''\<rparr>))"
    by (simp add: str_def isWhiteSpace_def)
  from h submit_blank_title [OF h] show ?thesis by blast
qed

text \<open>
  C8. When the title is not blank, submitting hands exactly one payload to \<open>onAddTask\<close>
  and then calls \<open>onClose\<close> once. The payload carries the trimmed title and the trimmed
  notes, the other fields of the draft as they are, the final subtask list, and no
  \<open>completed\<close> key.
\<close>

theorem submit_emits:
  assumes "\<not> list_all isWhiteSpace (title s)"
  shows "\<exists>payload.
           dispatch Submit s = (s, [PreventDefault, OnAddTask payload, OnClose]) \<and>
           payload =
             [(''title'', VString (trim (title s))),
              (''listId'', VNumber (Num (listId s))),
              (''dueDate'', VDate (dueDate s)),
              (''startTime'', VString (startTime s)),
              (''duration'', VNumber (duration s)),
              (''isFixed'', VBoolean (isFixed s)),
              (''important'', VBoolean (important s)),
              (''notes'', VString (trim (notes' s))),
              (''subtasks'', VSubtasks (finalSubtasks s))] \<and>
           map_of payload ''title'' = Some (VString (trim (title s))) \<and>
           map_of payload ''notes'' = Some (VString (trim (notes' s))) \<and>
           map_of payload ''completed'' = None"
  using assms by (simp add: handleSubmit_def trim_Nil_iff objectOf_def restWithout_def)

theorem submit_emits_witness:
  "\<not> list_all isWhiteSpace (title milkDraft) \<and>
   dispatch Submit milkDraft =
     (milkDraft,
      [PreventDefault,
       OnAddTask
         [(''title'', VString (str ''Buy milk'')),
          (''listId'', VNumber (Num 1)),
          (''dueDate'', VDate (TimeValue 1704067200000)),
          (''startTime'', VString []),
          (''duration'', VNumber (Num 60)),
          (''isFixed'', VBoolean False),
          (''important'', VBoolean False),
          (''notes'', VString []),
          (''subtasks'',
           VSubtasks [\<lparr>sub_id = 0, sub_title = str ''2% milk'', sub_completed = False\<rparr>])],
       OnClose])"
proof -
  have h: "\<not> list_all isWhiteSpace (title milkDraft)"
    by (simp add: milkDraft_eq str_def isWhiteSpace_def)
  have f: "trim (title milkDraft) = str ''Buy milk''" "listId milkDraft = 1"
    "dueDate milkDraft = TimeValue 1704067200000" "startTime milkDraft = []"
    "duration milkDraft = Num 60" "isFixed milkDraft = False" "important milkDraft = False"
    "trim (notes' milkDraft) = []"
    "finalSubtasks milkDraft =
       [\<lparr>sub_id = 0, sub_title = str ''2% milk'', sub_completed = False\<rparr>]"
    by (simp_all add: milkDraft_eq eval_simps)
  from submit_emits [OF h] h show ?thesis
    by (clarsimp simp: f)
qed

text \<open>
  C2. The subtask list of the payload holds exactly the rows whose trimmed title is not
  empty, in their order in the draft, each with its title and its \<open>completed\<close> flag as
  they are and its id set to its position in the draft. The ids are therefore strictly
  increasing; they are \<open>0, ..., k - 1\<close> when no blank row stands before a row that is
  kept. This holds of every draft, whatever events produced it.
\<close>

theorem submitted_subtasks:
  assumes "\<not> list_all isWhiteSpace (title s)"
  shows "emittedSubtasks (snd (dispatch Submit s)) = [finalSubtasks s] \<and>
         finalSubtasks s =
           map (\<lambda>i. (subtasks s ! i)\<lparr>sub_id := int i\<rparr>)
               (filter (\<lambda>i. trim (sub_title (subtasks s ! i)) \<noteq> [])
                       [0 ..< length (subtasks s)]) \<and>
         map sub_title (finalSubtasks s) =
           filter (\<lambda>t. trim t \<noteq> []) (map sub_title (subtasks s)) \<and>
         sorted_wrt (<) (map sub_id (finalSubtasks s)) \<and>
         ((\<forall>i j. i < j \<and> j < length (subtasks s) \<and> trim (sub_title (subtasks s ! i)) = []
              \<longrightarrow> trim (sub_title (subtasks s ! j)) = []) \<longrightarrow>
          map sub_id (finalSubtasks s) = map int [0 ..< length (finalSubtasks s)])"
proof -
  from assms have t: "trim (title s) \<noteq> []" by (simp add: trim_Nil_iff)
  let ?P = "\<lambda>i. trim (sub_title (subtasks s ! i)) \<noteq> []"
  have last: "map sub_id (finalSubtasks s) = map int [0 ..< length (finalSubtasks s)]"
    if h: "\<forall>i j. i < j \<and> j < length (subtasks s) \<and> trim (sub_title (subtasks s ! i)) = []
              \<longrightarrow> trim (sub_title (subtasks s ! j)) = []"
  proof -
    from h have "\<forall>i j. i < j \<and> j < length (subtasks s) \<and> \<not> ?P i \<longrightarrow> \<not> ?P j" by simp
    then have "filter ?P [0 ..< length (subtasks s)] =
               [0 ..< length (filter ?P [0 ..< length (subtasks s)])]"
      by (rule filter_upt_prefix)
    moreover have "length (finalSubtasks s) = length (filter ?P [0 ..< length (subtasks s)])"
      by (simp add: finalSubtasks_eq)
    ultimately show ?thesis by (simp add: finalSubtasks_ids)
  qed
  have e: "emittedSubtasks (snd (dispatch Submit s)) = [finalSubtasks s]"
    using t by (simp add: emitted_handleSubmit)
  from e finalSubtasks_eq finalSubtasks_titles finalSubtasks_ids_increasing last
  show ?thesis by blast
qed

theorem submitted_subtasks_witness:
  "\<not> list_all isWhiteSpace (title trailingDraft) \<and>
   map sub_title (subtasks trailingDraft) = [str ''a'', str ''b'', []] \<and>
   emittedSubtasks (snd (dispatch Submit trailingDraft)) =
     [ [\<lparr>sub_id = 0, sub_title = str ''a'', sub_completed = False\<rparr>,
       \<lparr>sub_id = 1, sub_title = str ''b'', sub_completed = False\<rparr>] ] \<and>
   map sub_id (finalSubtasks trailingDraft) = [0, 1]"
proof -
  have h: "\<not> list_all isWhiteSpace (title trailingDraft)"
    by (simp add: trailingDraft_eq str_def isWhiteSpace_def)
  have rows: "map sub_title (subtasks trailingDraft) = [str ''a'', str ''b'', []]"
    by (simp add: trailingDraft_eq)
  have fin: "finalSubtasks trailingDraft =
     [\<lparr>sub_id = 0, sub_title = str ''a'', sub_completed = False\<rparr>,
      \<lparr>sub_id = 1, sub_title = str ''b'', sub_completed = False\<rparr>]"
    by (simp add: trailingDraft_eq eval_simps)
  have len: "length (subtasks trailingDraft) = 3" by (simp add: trailingDraft_eq)
  have t: "trim (sub_title (subtasks trailingDraft ! 0)) \<noteq> []"
    "trim (sub_title (subtasks trailingDraft ! 1)) \<noteq> []"
    "trim (sub_title (subtasks trailingDraft ! 2)) = []"
    by (simp_all add: trailingDraft_eq eval_simps)
  have ordered: "\<forall>i j. i < j \<and> j < length (subtasks trailingDraft) \<and>
                   trim (sub_title (subtasks trailingDraft ! i)) = []
              \<longrightarrow> trim (sub_title (subtasks trailingDraft ! j)) = []"
  proof (intro allI impI)
    fix i j
    assume a: "i < j \<and> j < length (subtasks trailingDraft) \<and>
               trim (sub_title (subtasks trailingDraft ! i)) = []"
    with len have "i = 0 \<or> i = 1" by linarith
    with a t show "trim (sub_title (subtasks trailingDraft ! j)) = []" by auto
  qed
  from submitted_subtasks [OF h] ordered have
    "emittedSubtasks (snd (dispatch Submit trailingDraft)) = [finalSubtasks trailingDraft]"
    "map sub_id (finalSubtasks trailingDraft) = map int [0 ..< length (finalSubtasks trailingDraft)]"
    by blast+
  with h rows show ?thesis by (simp add: fin)
qed

text \<open>
  The ids are not \<open>0, ..., k - 1\<close> in general: after two rows are filled in and the first
  one is cleared again, the one row that is submitted has id 1.
\<close>

theorem submitted_ids_gap:
  "run gapEvents openedDraft = (gapDraft, []) \<and>
   map sub_title (subtasks gapDraft) = [ [], str ''b''] \<and>
   emittedSubtasks (snd (dispatch Submit gapDraft)) =
     [ [\<lparr>sub_id = 1, sub_title = str ''b'', sub_completed = False\<rparr>] ] \<and>
   [1] \<noteq> map int [0 ..< 1]"
  by (simp add: run_gapEvents gapDraft_eq eval_simps)

section \<open>Subtask rows\<close>

text \<open>
  C7. A click on "Add Subtask" does nothing when the last row's trimmed title is empty;
  otherwise it appends one row with an empty title and \<open>completed = false\<close> and leaves
  the existing rows as they are.
\<close>

theorem add_subtask_guarded:
  "(subtasks s \<noteq> [] \<and> trim (sub_title (last (subtasks s))) = [] \<longrightarrow>
      dispatch (AddSubtaskClick now) s = (s, [])) \<and>
   (\<not> (subtasks s \<noteq> [] \<and> trim (sub_title (last (subtasks s))) = []) \<longrightarrow>
      dispatch (AddSubtaskClick now) s =
        (s\<lparr>subtasks := subtasks s @ [\<lparr>sub_id = now, sub_title = [], sub_completed = False\<rparr>]\<rparr>,
         []))"
  by (auto simp: addSubtaskDisabled_def addSubtask_def last_conv_nth)

theorem add_subtask_guarded_witness:
  "dispatch (AddSubtaskClick 5) (addSubtask 4 openedDraft) = (addSubtask 4 openedDraft, []) \<and>
   dispatch (AddSubtaskClick 5) openedDraft =
     (openedDraft\<lparr>subtasks := [\<lparr>sub_id = 5, sub_title = [], sub_completed = False\<rparr>]\<rparr>, []) \<and>
   dispatch (AddSubtaskClick 5) milkDraft =
     (milkDraft\<lparr>subtasks :=
        [\<lparr>sub_id = 1704100001000, sub_title = str ''2% milk'', sub_completed = False\<rparr>,
         \<lparr>sub_id = 5, sub_title = [], sub_completed = False\<rparr>]\<rparr>, [])"
proof -
  have a: "subtasks (addSubtask 4 openedDraft) \<noteq> [] \<and>
           trim (sub_title (last (subtasks (addSubtask 4 openedDraft)))) = []"
    by (simp add: addSubtask_def trim_def trimEnd_def trimStart_def)
  have b: "\<not> (subtasks openedDraft \<noteq> [] \<and> trim (sub_title (last (subtasks openedDraft))) = [])"
    by (simp add: openedDraft_eq)
  have c: "\<not> (subtasks milkDraft \<noteq> [] \<and> trim (sub_title (last (subtasks milkDraft))) = [])"
    by (simp add: milkDraft_eq trim_def trimEnd_def trimStart_def str_def isWhiteSpace_def)
  have d: "subtasks openedDraft = []"
    "subtasks milkDraft =
       [\<lparr>sub_id = 1704100001000, sub_title = str ''2% milk'', sub_completed = False\<rparr>]"
    by (simp_all add: openedDraft_eq milkDraft_eq)
  from add_subtask_guarded [of "addSubtask 4 openedDraft" 5] a
    add_subtask_guarded [of openedDraft 5] b
    add_subtask_guarded [of milkDraft 5] c
  show ?thesis by (simp only: d append_Nil append_Cons simp_thms)
qed

text \<open>
  C3. \<open>handleSubtaskChange\<close> with an index outside the subtask list throws a TypeError
  (it assigns to \<open>.title\<close> of \<open>undefined\<close>) before any state update, so the draft
  stays as it was; with an index inside the list it replaces the title of that row and
  nothing else.
\<close>

theorem subtask_change_out_of_bounds:
  "(index < 0 \<or> int (length (subtasks s)) \<le> index \<longrightarrow>
      handleSubtaskChange index v s = Inl TypeError \<and>
      dispatch (SubtaskChange index v) s = (s, [Uncaught TypeError])) \<and>
   (0 \<le> index \<and> index < int (length (subtasks s)) \<longrightarrow>
      dispatch (SubtaskChange index v) s =
        (s\<lparr>subtasks := (subtasks s)[nat index := (subtasks s ! nat index)\<lparr>sub_title := v\<rparr>]\<rparr>,
         []))"
  by (auto simp: handleSubtaskChange_def Let_def)

theorem subtask_change_out_of_bounds_witness:
  "handleSubtaskChange 1 (str ''skim'') milkDraft = Inl TypeError \<and>
   dispatch (SubtaskChange 1 (str ''skim'')) milkDraft = (milkDraft, [Uncaught TypeError]) \<and>
   dispatch (SubtaskChange (- 1) (str ''skim'')) milkDraft = (milkDraft, [Uncaught TypeError]) \<and>
   dispatch (SubtaskChange 0 (str ''skim'')) milkDraft =
     (milkDraft\<lparr>subtasks :=
        [\<lparr>sub_id = 1704100001000, sub_title = str ''skim'', sub_completed = False\<rparr>]\<rparr>, [])"
proof -
  have d: "subtasks milkDraft =
       [\<lparr>sub_id = 1704100001000, sub_title = str ''2% milk'', sub_completed = False\<rparr>]"
    by (simp add: milkDraft_eq)
  from subtask_change_out_of_bounds [of 1 milkDraft "str ''skim''"]
    subtask_change_out_of_bounds [of "- 1" milkDraft "str ''skim''"]
    subtask_change_out_of_bounds [of 0 milkDraft "str ''skim''"]
  show ?thesis by (simp add: d)
qed

text \<open>
  With no rows in the draft, index 0 is out of bounds and the handler throws instead of
  returning quietly.
\<close>

theorem subtask_change_raises:
  "handleSubtaskChange 0 (str ''x'') openedDraft = Inl TypeError \<and>
   handleSubtaskChange 0 (str ''x'') openedDraft \<noteq> Inr openedDraft"
  by (simp add: handleSubtaskChange_def openedDraft_eq)

text \<open>
  C6. In every draft reached from the initial one, the rows before the last that are
  blank are at most as many as the edits that gave an empty trimmed title to a row other
  than the last, and the blank rows are at most one more. With no such edit every row but
  the last has a title that is not blank, so at most one row is blank: typing and erasing
  in the last row, or typing spaces into it, keeps the button disabled.
\<close>

theorem blank_rows_bounded:
  assumes "run evs (initialState taskLists d now) = (s, effs)"
  shows "length (filter blankRow (butlast (subtasks s))) \<le>
           innerClearings evs (initialState taskLists d now) \<and>
         length (filter blankRow (subtasks s)) \<le>
           1 + innerClearings evs (initialState taskLists d now) \<and>
         (innerClearings evs (initialState taskLists d now) = 0 \<longrightarrow>
            length (filter blankRow (subtasks s)) \<le> 1 \<and>
            (\<forall>sub\<in>set (butlast (subtasks s)). \<not> blankRow sub))"
proof -
  let ?k = "innerClearings evs (initialState taskLists d now)"
  have "blankInner (subtasks (initialState taskLists d now)) = 0"
    by (simp add: blankInner_def initialState_def)
  with run_blankInner [of evs "initialState taskLists d now"] assms
  have inner: "blankInner (subtasks s) \<le> ?k" by simp
  with blank_count_le [of "subtasks s"] have all: "length (filter blankRow (subtasks s)) \<le> 1 + ?k"
    by simp
  have "\<forall>sub\<in>set (butlast (subtasks s)). \<not> blankRow sub" if "?k = 0"
  proof -
    from inner that have "filter blankRow (butlast (subtasks s)) = []"
      by (simp add: blankInner_def)
    then show ?thesis by (simp add: filter_empty_conv)
  qed
  with inner all show ?thesis by (simp add: blankInner_def)
qed

theorem blank_rows_bounded_witness:
  "innerClearings eraseEvents openedDraft = 0 \<and>
   map sub_title (subtasks (fst (run eraseEvents openedDraft))) = [str ''c'', str '' ''] \<and>
   length (filter blankRow (subtasks (fst (run eraseEvents openedDraft)))) \<le> 1 \<and>
   list_all (\<lambda>sub. \<not> blankRow sub) (butlast (subtasks (fst (run eraseEvents openedDraft))))"
proof -
  have k: "innerClearings eraseEvents
             (initialState [homeList] (Some (TimeValue 1704067200000)) 1704100000000) = 0"
    using innerClearings_eraseEvents by (simp add: openedDraft_def)
  have r: "run eraseEvents (initialState [homeList] (Some (TimeValue 1704067200000)) 1704100000000) =
           (fst (run eraseEvents openedDraft), snd (run eraseEvents openedDraft))"
    by (simp add: openedDraft_def)
  have rows: "map sub_title (subtasks (fst (run eraseEvents openedDraft))) = [str ''c'', str '' '']"
    by (simp add: run_eraseEvents)
  from blank_rows_bounded [OF r] k innerClearings_eraseEvents rows show ?thesis
    by (simp add: list_all_iff)
qed

text \<open>
  Two blank rows are reachable through the guarded button: fill in a row, add a second
  one, clear the first. That last edit is the one that blanks a row other than the last.
\<close>

theorem two_blank_rows:
  "list_all subtaskEvent twoBlankEvents \<and>
   innerClearings twoBlankEvents openedDraft = 1 \<and>
   map sub_title (subtasks (fst (run twoBlankEvents openedDraft))) = [ [], [] ] \<and>
   length (filter blankRow (subtasks (fst (run twoBlankEvents openedDraft)))) = 2"
proof -
  have "list_all subtaskEvent twoBlankEvents"
    by (simp add: twoBlankEvents_def)
  moreover have "innerClearings twoBlankEvents openedDraft = 1"
    by (simp add: twoBlankEvents_def openedDraft_def clearsInnerRow_def eval_simps)
  moreover have "map sub_title (subtasks (fst (run twoBlankEvents openedDraft))) = [ [], [] ]"
    by (simp add: run_twoBlankEvents)
  moreover have "length (filter blankRow (subtasks (fst (run twoBlankEvents openedDraft)))) = 2"
    by (simp add: run_twoBlankEvents blankRow_def trim_def trimEnd_def trimStart_def)
  ultimately show ?thesis by blast
qed

text \<open>
  C10. No event sets \<open>completed\<close> on a subtask: in every draft reached from the initial
  one, by the subtask events or any other, every row has \<open>completed = false\<close>, and so
  has every subtask of a payload submitted from it.
\<close>

theorem subtasks_never_completed:
  assumes "run evs (initialState taskLists d now) = (s, effs)"
  shows "(\<forall>sub\<in>set (subtasks s). \<not> sub_completed sub) \<and>
         (\<forall>F\<in>set (emittedSubtasks (snd (dispatch Submit s))). \<forall>sub\<in>set F. \<not> sub_completed sub)"
proof -
  have "allOpen (subtasks (initialState taskLists d now))"
    by (simp add: allOpen_def initialState_def)
  then have "allOpen (subtasks (fst (run evs (initialState taskLists d now))))"
    by (rule run_allOpen)
  with assms have a: "allOpen (subtasks s)" by simp
  from emitted_allOpen [OF a] a show ?thesis by (simp add: allOpen_def)
qed

theorem subtasks_never_completed_witness:
  "run gapEvents openedDraft = (gapDraft, []) \<and>
   length (subtasks gapDraft) = 2 \<and>
   list_all (\<lambda>sub. \<not> sub_completed sub) (subtasks gapDraft) \<and>
   length (emittedSubtasks (snd (dispatch Submit gapDraft))) = 1 \<and>
   list_all (list_all (\<lambda>sub. \<not> sub_completed sub))
     (emittedSubtasks (snd (dispatch Submit gapDraft)))"
proof -
  have r: "run gapEvents (initialState [homeList] (Some (TimeValue 1704067200000)) 1704100000000) =
           (gapDraft, [])"
    using run_gapEvents by (simp add: openedDraft_def gapDraft_eq)
  have r': "run gapEvents openedDraft = (gapDraft, [])"
    by (simp add: run_gapEvents gapDraft_eq)
  have n: "length (subtasks gapDraft) = 2"
    "length (emittedSubtasks (snd (dispatch Submit gapDraft))) = 1"
    by (simp_all add: gapDraft_eq eval_simps)
  from subtasks_never_completed [OF r] n r' show ?thesis
    by (simp add: list_all_iff)
qed

section \<open>Scalar fields\<close>

text \<open>
  C5. The duration input sets \<open>duration\<close> to 60 when \<open>parseInt\<close> of the text is NaN
  (in particular when the text holds no digit) or 0, and keeps a positive result of
  \<open>parseInt\<close>: the integer \<open>n\<close> when the text parses to a positive integer \<open>n\<close> (in
  particular for the decimal numeral of an \<open>n\<close> up to \<open>2^53\<close>), and a positive Number of
  magnitude at least \<open>2^53\<close> when \<open>parseInt\<close> returns one (in particular for the decimal
  numeral of a larger \<open>n\<close>).
\<close>

theorem duration_change:
  "(parseInt v = NaN \<or> parseInt v = Num 0 \<longrightarrow> duration (handleDurationChange v s) = Num 60) \<and>
   (\<forall>n. parseInt v = Num n \<and> 0 < n \<longrightarrow> duration (handleDurationChange v s) = Num n) \<and>
   (parseInt v = Beyond False \<longrightarrow> duration (handleDurationChange v s) = Beyond False) \<and>
   ((\<forall>c\<in>set v. \<not> isDigit c) \<longrightarrow> duration (handleDurationChange v s) = Num 60) \<and>
   (\<forall>n. v = decimal n \<and> n \<le> 9007199254740992 \<longrightarrow>
      duration (handleDurationChange v s) = (if n = 0 then Num 60 else Num (int n))) \<and>
   (\<forall>n. v = decimal n \<and> 9007199254740992 < n \<longrightarrow>
      duration (handleDurationChange v s) = Beyond False)"
  by (auto simp: handleDurationChange_def parseInt_decimal parseInt_no_digit toNumber_def)

theorem duration_change_witness:
  "duration (handleDurationChange (str ''abc'') openedDraft) = Num 60 \<and>
   duration (handleDurationChange (str ''0'') openedDraft) = Num 60 \<and>
   duration (handleDurationChange (str ''12abc'') openedDraft) = Num 12 \<and>
   duration (handleDurationChange (str ''45'') openedDraft) = Num 45 \<and>
   duration (handleDurationChange (str ''9007199254740993'') openedDraft) = Beyond False"
proof -
  have p: "parseInt (str ''0'') = Num 0" "parseInt (str ''12abc'') = Num 12"
    by (simp_all add: eval_simps)
  have nd: "\<forall>c\<in>set (str ''abc''). \<not> isDigit c" by (simp add: str_def isDigit_def)
  have dec: "str ''45'' = decimal 45" "str ''9007199254740993'' = decimal 9007199254740993"
    by (simp_all add: str_def decimal.simps)
  from duration_change [of "str ''abc''" openedDraft] nd
  have a: "duration (handleDurationChange (str ''abc'') openedDraft) = Num 60" by blast
  from duration_change [of "str ''0''" openedDraft] p(1)
  have b: "duration (handleDurationChange (str ''0'') openedDraft) = Num 60" by blast
  from duration_change [of "str ''12abc''" openedDraft] p(2)
  have c: "duration (handleDurationChange (str ''12abc'') openedDraft) = Num 12" by simp
  from duration_change [of "decimal 45" openedDraft]
  have d: "duration (handleDurationChange (decimal 45) openedDraft) = Num 45" by simp
  from duration_change [of "decimal 9007199254740993" openedDraft]
  have e: "duration (handleDurationChange (decimal 9007199254740993) openedDraft) = Beyond False"
    by simp
  from a b c d e show ?thesis by (simp add: dec)
qed

text \<open>A negative number is kept: \<open>parseInt("-5") || 60\<close> is \<open>-5\<close>.\<close>

theorem duration_negative_kept:
  "parseInt (str ''-5'') = Num (- 5) \<and>
   duration (handleDurationChange (str ''-5'') openedDraft) = Num (- 5) \<and>
   duration (handleDurationChange (str ''-5'') openedDraft) \<noteq> Num 60"
  by (simp add: eval_simps)

section \<open>The initial draft\<close>

text \<open>
  C9. The initial \<open>listId\<close> is the id of the first supplied list when that id is not 0.
  With no list supplied, or with a first list whose id is 0, it is 1, which then need not
  be the id of any supplied list.
\<close>

theorem initial_listId:
  "(taskLists = [] \<longrightarrow> listId (initialState taskLists d now) = 1) \<and>
   (\<forall>l ls. taskLists = l # ls \<and> list_id l = 0 \<longrightarrow> listId (initialState taskLists d now) = 1) \<and>
   (\<forall>l ls. taskLists = l # ls \<and> list_id l \<noteq> 0 \<longrightarrow>
      listId (initialState taskLists d now) = list_id l) \<and>
   (taskLists = [] \<or>
    (\<exists>l ls. taskLists = l # ls \<and> list_id l = 0 \<and> (\<forall>k\<in>set ls. list_id k \<noteq> 1)) \<longrightarrow>
      listId (initialState taskLists d now) \<notin> list_id ` set taskLists)"
  by (auto simp: initialState_def)

theorem initial_listId_witness:
  "listId (initialState [] None 0) = 1 \<and>
   listId (initialState [inboxList, workList] None 0) = 1 \<and>
   listId (initialState [workList, homeList] None 0) = 7 \<and>
   listId (initialState [inboxList, workList] None 0) \<notin> list_id ` set [inboxList, workList]"
proof -
  have i: "list_id inboxList = 0" "list_id workList = 7"
    by (simp_all add: inboxList_def workList_def)
  from initial_listId [of "[]" None 0]
    initial_listId [of "[inboxList, workList]" None 0]
    initial_listId [of "[workList, homeList]" None 0]
  show ?thesis by (simp add: i)
qed

end
